theory Spec2Isabelle
  imports Main "HOL-Library.Sublist"
begin

section \<open>Inventory management system: the data model\<close>

text \<open>
  The program is one Python class, \<open>InventoryManager\<close>, with a single attribute
  \<open>stock_data\<close>, a dictionary from item names to quantities.

  A Python dictionary iterates in insertion order, and \<open>check_low_items\<close> returns its
  result in that order, so the dictionary is an association list: assigning to a key that
  is present replaces the value where it stands, assigning to a new key appends the entry,
  \<open>del\<close> removes it. Item names are strings and quantities are (unbounded) integers.
\<close>

datatype error = KeyError string | OSError | UnicodeDecodeError | JSONDecodeError

type_synonym stock = "(string \<times> int) list"

record 'd InventoryManager =
  stock_data :: 'd

text \<open>\<open>d[k] = v\<close>\<close>

fun dict_setitem :: "('k \<times> 'v) list \<Rightarrow> 'k \<Rightarrow> 'v \<Rightarrow> ('k \<times> 'v) list" where
  "dict_setitem [] k v = [(k, v)]"
| "dict_setitem ((k', v') # d) k v =
     (if k' = k then (k', v) # d else (k', v') # dict_setitem d k v)"

text \<open>\<open>d[k]\<close>, which raises \<open>KeyError\<close> on a missing key\<close>

definition dict_getitem :: "stock \<Rightarrow> string \<Rightarrow> error + int" where
  "dict_getitem d k = (case map_of d k of None \<Rightarrow> Inl (KeyError k) | Some v \<Rightarrow> Inr v)"

text \<open>\<open>d.get(k, default)\<close>\<close>

definition dict_get :: "stock \<Rightarrow> string \<Rightarrow> int \<Rightarrow> int" where
  "dict_get d k dflt = (case map_of d k of None \<Rightarrow> dflt | Some v \<Rightarrow> v)"

text \<open>\<open>del d[k]\<close>, which raises \<open>KeyError\<close> on a missing key\<close>

fun dict_remove :: "('k \<times> 'v) list \<Rightarrow> 'k \<Rightarrow> ('k \<times> 'v) list" where
  "dict_remove [] k = []"
| "dict_remove ((k', v') # d) k = (if k' = k then dict_remove d k else (k', v') # dict_remove d k)"

definition dict_delitem :: "stock \<Rightarrow> string \<Rightarrow> error + stock" where
  "dict_delitem d k = (case map_of d k of None \<Rightarrow> Inl (KeyError k) | Some v \<Rightarrow> Inr (dict_remove d k))"

text \<open>Truth value of a string: \<open>not item\<close> holds exactly for the empty string.\<close>

definition truthy :: "string \<Rightarrow> bool" where
  "truthy item = (item \<noteq> [])"

text \<open>\<open>str(n)\<close> for an integer: decimal digits, with a minus sign when negative.\<close>

definition digit_char :: "nat \<Rightarrow> char" where
  "digit_char d = char_of (48 + d)"

fun str_nat :: "nat \<Rightarrow> string" where
  "str_nat n = (if n < 10 then [digit_char n] else str_nat (n div 10) @ [digit_char (n mod 10)])"

declare str_nat.simps [simp del]

definition str_int :: "int \<Rightarrow> string" where
  "str_int i = (if i < 0 then CHR ''-'' # str_nat (nat (- i)) else str_nat (nat i))"


section \<open>The operations of \<open>InventoryManager\<close>\<close>

text \<open>\<open>__init__\<close>: an empty inventory.\<close>

definition init :: "stock InventoryManager" where
  "init = \<lparr>stock_data = []\<rparr>"

text \<open>
  \<open>add_item(item, qty, logs)\<close>. The caller's log list is \<open>Some l\<close>, and \<open>None\<close> when
  the argument is left out: then the line is appended to a fresh list that nobody else
  sees. The result is the new object state and the caller's list after the call.
  \<open>now\<close> is the text of \<open>datetime.now()\<close> at the call.
\<close>

definition add_item ::
  "string \<Rightarrow> stock InventoryManager \<Rightarrow> string \<Rightarrow> int \<Rightarrow> string list option
     \<Rightarrow> stock InventoryManager \<times> string list option" where
  "add_item now s item qty logs =
     (if \<not> truthy item then (s, logs)
      else
        let logs1 = (case logs of None \<Rightarrow> [] | Some l \<Rightarrow> l);
            s1 = s\<lparr>stock_data := dict_setitem (stock_data s) item
                                   (dict_get (stock_data s) item 0 + qty)\<rparr>;
            logs2 = logs1 @ [now @ '': Added '' @ str_int qty @ '' of '' @ item]
        in (s1, map_option (\<lambda>_. logs2) logs))"

text \<open>
  \<open>remove_item(item, qty)\<close>. The body of the \<open>try\<close> block returns the exception it
  raised, if any, with the state at that point; the handler swallows \<open>KeyError\<close>.
\<close>

definition remove_item_try ::
  "stock InventoryManager \<Rightarrow> string \<Rightarrow> int \<Rightarrow> error option \<times> stock InventoryManager" where
  "remove_item_try s item qty =
     (case dict_getitem (stock_data s) item of
        Inl e \<Rightarrow> (Some e, s)
      | Inr v \<Rightarrow>
          let s1 = s\<lparr>stock_data := dict_setitem (stock_data s) item (v - qty)\<rparr> in
          (case dict_getitem (stock_data s1) item of
             Inl e \<Rightarrow> (Some e, s1)
           | Inr v1 \<Rightarrow>
               if v1 \<le> 0 then
                 (case dict_delitem (stock_data s1) item of
                    Inl e \<Rightarrow> (Some e, s1)
                  | Inr d2 \<Rightarrow> (None, s1\<lparr>stock_data := d2\<rparr>))
               else (None, s1)))"

definition remove_item ::
  "stock InventoryManager \<Rightarrow> string \<Rightarrow> int \<Rightarrow> error option \<times> stock InventoryManager" where
  "remove_item s item qty =
     (case remove_item_try s item qty of
        (Some (KeyError k), s') \<Rightarrow> (None, s')
      | r \<Rightarrow> r)"

text \<open>\<open>get_qty(item)\<close>\<close>

definition get_qty :: "stock InventoryManager \<Rightarrow> string \<Rightarrow> error + int" where
  "get_qty s item = dict_getitem (stock_data s) item"

text \<open>\<open>check_low_items(threshold)\<close>: the list comprehension, entry by entry.\<close>

fun low_items :: "stock \<Rightarrow> int \<Rightarrow> string list" where
  "low_items [] threshold = []"
| "low_items ((item, qty) # rest) threshold =
     (if qty < threshold then item # low_items rest threshold else low_items rest threshold)"

definition check_low_items :: "stock InventoryManager \<Rightarrow> int \<Rightarrow> string list" where
  "check_low_items s threshold = low_items (stock_data s) threshold"

text \<open>
  A run of calls on one object, for statements about every history of an inventory.
\<close>

datatype call =
    AddItem string string int "string list option"
  | RemoveItem string int

fun exec_call :: "stock InventoryManager \<Rightarrow> call \<Rightarrow> stock InventoryManager" where
  "exec_call s (AddItem now item qty logs) = fst (add_item now s item qty logs)"
| "exec_call s (RemoveItem item qty) = snd (remove_item s item qty)"

definition run :: "call list \<Rightarrow> stock InventoryManager" where
  "run calls = foldl exec_call init calls"

fun adds :: "string \<Rightarrow> call \<Rightarrow> bool" where
  "adds item (AddItem now item' qty logs) = (item' = item)"
| "adds item (RemoveItem item' qty) = False"

text \<open>The scenario of the specification, the two \<open>add_item\<close> calls at times \<open>t1\<close>, \<open>t2\<close>.\<close>

definition scenario :: "string \<Rightarrow> string \<Rightarrow> stock InventoryManager" where
  "scenario t1 t2 =
     run [AddItem t1 ''apple'' 10 None, AddItem t2 ''banana'' (- 2) None,
          RemoveItem ''apple'' 3, RemoveItem ''orange'' 1]"


section \<open>The \<open>json\<close> module and the file system\<close>

text \<open>
  \<open>load_data\<close> and \<open>save_data\<close> call \<open>json.loads\<close>, \<open>json.dumps\<close> and \<open>open\<close> of the
  Python standard library. They are modelled here after CPython's \<open>json\<close> package with its
  default settings.

  A Python string is a sequence of code points, any of them up to \<open>0x10FFFF\<close>, the
  surrogates \<open>0xD800\<close> to \<open>0xDFFF\<close> included. The keys of the dictionary that
  \<open>save_data\<close> writes and the strings inside a parsed document are therefore lists of
  code points. The text of a file is a \<open>string\<close>: a character of a file has a code point
  below 256. \<open>json.dumps\<close> writes ASCII only.

  A number with a fraction or an exponent (and \<open>NaN\<close>, \<open>Infinity\<close>, \<open>-Infinity\<close>, which
  \<open>json.loads\<close> accepts although they are not JSON) is a Python float: the model keeps its
  text, which determines the float. Not modelled: the interpreter's recursion limit and
  its limit on the number of digits of an integer literal.
\<close>

type_synonym pystr = "nat list"

type_synonym pydict = "(pystr \<times> int) list"

definition is_str :: "pystr \<Rightarrow> bool" where
  "is_str k = list_all (\<lambda>n. n < 0x110000) k"

text \<open>The code points of a string of item names, and an inventory as such a dictionary.\<close>

definition codes :: "string \<Rightarrow> pystr" where
  "codes k = map of_char k"

definition codes_of_stock :: "stock \<Rightarrow> pydict" where
  "codes_of_stock d = map (\<lambda>(k, v). (codes k, v)) d"

datatype json =
    JNull
  | JBool bool
  | JInt int
  | JFloat string
  | JStr "nat list"
  | JArr "json list"
  | JObj "(nat list \<times> json) list"

subsection \<open>\<open>json.dumps\<close> of a dictionary from strings to integers\<close>

definition hex_digit :: "nat \<Rightarrow> char" where
  "hex_digit d = (if d < 10 then char_of (48 + d) else char_of (87 + d))"

definition u_escape :: "nat \<Rightarrow> string" where
  "u_escape n =
     [CHR 0x5C, CHR ''u'', hex_digit (n div 4096 mod 16), hex_digit (n div 256 mod 16),
      hex_digit (n div 16 mod 16), hex_digit (n mod 16)]"

text \<open>
  One code point of a string, as \<open>ensure_ascii\<close> writes it: a code point from
  \<open>0x10000\<close> on is written as the two escapes of its surrogate pair.
\<close>

definition escape_char :: "nat \<Rightarrow> string" where
  "escape_char n =
     (if n = 0x22 then [CHR 0x5C, CHR 0x22]
      else if n = 0x5C then [CHR 0x5C, CHR 0x5C]
      else if n = 0x0A then [CHR 0x5C, CHR ''n'']
      else if n = 0x0D then [CHR 0x5C, CHR ''r'']
      else if n = 0x09 then [CHR 0x5C, CHR ''t'']
      else if n = 0x08 then [CHR 0x5C, CHR ''b'']
      else if n = 0x0C then [CHR 0x5C, CHR ''f'']
      else if 0x20 \<le> n \<and> n \<le> 0x7E then [char_of n]
      else if n < 0x10000 then u_escape n
      else u_escape (0xD800 + (n - 0x10000) div 0x400)
             @ u_escape (0xDC00 + (n - 0x10000) mod 0x400))"

definition encode_str :: "pystr \<Rightarrow> string" where
  "encode_str s = CHR 0x22 # concat (map escape_char s) @ [CHR 0x22]"

fun join :: "string \<Rightarrow> string list \<Rightarrow> string" where
  "join sep [] = []"
| "join sep [x] = x"
| "join sep (x # y # xs) = x @ sep @ join sep (y # xs)"

definition json_dumps :: "pydict \<Rightarrow> string" where
  "json_dumps d =
     ''{'' @ join '', '' (map (\<lambda>(k, v). encode_str k @ '': '' @ str_int v) d) @ ''}''"

subsection \<open>\<open>json.loads\<close>: the tokens\<close>

datatype token =
    LBrace | RBrace | LBracket | RBracket | Colon | Comma
  | TStr "nat list"
  | TVal json

definition is_ws :: "char \<Rightarrow> bool" where
  "is_ws c = (c = CHR '' '' \<or> c = CHR 0x09 \<or> c = CHR 0x0A \<or> c = CHR 0x0D)"

definition is_digit :: "char \<Rightarrow> bool" where
  "is_digit c = (48 \<le> (of_char c :: nat) \<and> (of_char c :: nat) \<le> 57)"

definition hex_val :: "char \<Rightarrow> nat option" where
  "hex_val c =
     (let n = (of_char c :: nat) in
      if 48 \<le> n \<and> n \<le> 57 then Some (n - 48)
      else if 97 \<le> n \<and> n \<le> 102 then Some (n - 87)
      else if 65 \<le> n \<and> n \<le> 70 then Some (n - 55)
      else None)"

text \<open>The character after a backslash, other than \<open>u\<close>.\<close>

definition unescape :: "char \<Rightarrow> nat option" where
  "unescape e =
     (if e = CHR 0x22 then Some 0x22
      else if e = CHR 0x5C then Some 0x5C
      else if e = CHR ''/'' then Some 0x2F
      else if e = CHR ''b'' then Some 0x08
      else if e = CHR ''f'' then Some 0x0C
      else if e = CHR ''n'' then Some 0x0A
      else if e = CHR ''r'' then Some 0x0D
      else if e = CHR ''t'' then Some 0x09
      else None)"

definition hex4 :: "char \<Rightarrow> char \<Rightarrow> char \<Rightarrow> char \<Rightarrow> nat option" where
  "hex4 a b c d =
     (case (hex_val a, hex_val b, hex_val c, hex_val d) of
        (Some x, Some y, Some z, Some w) \<Rightarrow> Some (((x * 16 + y) * 16 + z) * 16 + w)
      | _ \<Rightarrow> None)"

text \<open>
  The body of a string literal, after its opening quote: the code units up to the closing
  quote, and the text after it. A raw control character, an unknown escape and a missing
  closing quote are errors.
\<close>

fun scan_string :: "string \<Rightarrow> (nat list \<times> string) option" where
  "scan_string [] = None"
| "scan_string (c # cs) =
     (if c = CHR 0x22 then Some ([], cs)
      else if c = CHR 0x5C then
        (case cs of
           [] \<Rightarrow> None
         | e # es \<Rightarrow>
             if e = CHR ''u'' then
               (case es of
                  h1 # h2 # h3 # h4 # rest \<Rightarrow>
                    (case hex4 h1 h2 h3 h4 of
                       None \<Rightarrow> None
                     | Some n \<Rightarrow> map_option (\<lambda>(s, r). (n # s, r)) (scan_string rest))
                | _ \<Rightarrow> None)
             else
               (case unescape e of
                  None \<Rightarrow> None
                | Some n \<Rightarrow> map_option (\<lambda>(s, r). (n # s, r)) (scan_string es)))
      else if (of_char c :: nat) < 0x20 then None
      else map_option (\<lambda>(s, r). (of_char c # s, r)) (scan_string cs))"

text \<open>
  Two \<open>\u\<close> escapes that form a surrogate pair denote one code point. Only an escape
  yields a code unit that large, since a raw character of the text is below 256.
\<close>

definition is_high :: "nat \<Rightarrow> bool" where
  "is_high n = (0xD800 \<le> n \<and> n \<le> 0xDBFF)"

definition is_low :: "nat \<Rightarrow> bool" where
  "is_low n = (0xDC00 \<le> n \<and> n \<le> 0xDFFF)"

fun join_surrogates :: "nat list \<Rightarrow> nat list" where
  "join_surrogates (h # l # us) =
     (if is_high h \<and> is_low l
      then (0x10000 + (h - 0xD800) * 0x400 + (l - 0xDC00)) # join_surrogates us
      else h # join_surrogates (l # us))"
| "join_surrogates us = us"

text \<open>The value of a sequence of decimal digits.\<close>

definition nat_of_digits :: "string \<Rightarrow> nat" where
  "nat_of_digits ds = foldl (\<lambda>a c. 10 * a + (of_char c - 48)) 0 ds"

text \<open>The exponent part \<open>[eE][-+]?[0-9]+\<close> of a number, empty when there is none.\<close>

definition scan_exp :: "string \<Rightarrow> string \<times> string" where
  "scan_exp cs =
     (case cs of
        e # s # r \<Rightarrow>
          if e = CHR ''e'' \<or> e = CHR ''E'' then
            (if is_digit s then (e # s # takeWhile is_digit r, dropWhile is_digit r)
             else if s = CHR ''+'' \<or> s = CHR ''-'' then
               (case r of
                  d # r' \<Rightarrow>
                    if is_digit d then (e # s # d # takeWhile is_digit r', dropWhile is_digit r')
                    else ([], cs)
                | [] \<Rightarrow> ([], cs))
             else ([], cs))
          else ([], cs)
      | _ \<Rightarrow> ([], cs))"

text \<open>The fraction part \<open>\.[0-9]+\<close> of a number, empty when there is none.\<close>

definition scan_frac :: "string \<Rightarrow> string \<times> string" where
  "scan_frac cs =
     (case cs of
        p # d # r \<Rightarrow>
          if p = CHR ''.'' \<and> is_digit d then (p # d # takeWhile is_digit r, dropWhile is_digit r)
          else ([], cs)
      | _ \<Rightarrow> ([], cs))"

text \<open>The integer part \<open>0|[1-9][0-9]*\<close> of a number, after the sign.\<close>

definition scan_int :: "string \<Rightarrow> (string \<times> string) option" where
  "scan_int cs =
     (case cs of
        [] \<Rightarrow> None
      | c # r \<Rightarrow>
          if \<not> is_digit c then None
          else if c = CHR ''0'' then Some ([c], r)
          else Some (c # takeWhile is_digit r, dropWhile is_digit r))"

text \<open>
  A number at the head of the text: an integer when it has neither fraction nor exponent,
  a float otherwise.
\<close>

definition scan_number :: "string \<Rightarrow> (json \<times> string) option" where
  "scan_number cs =
     (let neg = (case cs of c # _ \<Rightarrow> c = CHR ''-'' | [] \<Rightarrow> False);
          cs1 = (if neg then tl cs else cs)
      in case scan_int cs1 of
           None \<Rightarrow> None
         | Some (ip, cs2) \<Rightarrow>
             let (frac, cs3) = scan_frac cs2;
                 (ex, cs4) = scan_exp cs3
             in if frac = [] \<and> ex = []
                then Some (JInt (if neg then - int (nat_of_digits ip) else int (nat_of_digits ip)), cs4)
                else Some (JFloat ((if neg then ''-'' else []) @ ip @ frac @ ex), cs4))"

text \<open>A fixed word at the head of the text.\<close>

definition starts_with :: "string \<Rightarrow> string \<Rightarrow> bool" where
  "starts_with w cs = (take (length w) cs = w)"

text \<open>The scanners consume what they accept, so the tokenizer below terminates.\<close>

lemma scan_string_length: "scan_string cs = Some (s, r) \<Longrightarrow> length r < Suc (length cs)"
proof (induction cs arbitrary: s r rule: scan_string.induct)
  case 1
  then show ?case by simp
next
  case (2 c cs)
  show ?case
  proof (cases "c = CHR 0x22")
    case True
    with "2.prems" show ?thesis by simp
  next
    case quote: False
    show ?thesis
    proof (cases "c = CHR 0x5C")
      case False
      with quote "2.prems" "2.IH"(3) show ?thesis
        by (fastforce split: if_splits)
    next
      case True
      with quote "2.prems" obtain e es where cs: "cs = e # es"
        by (cases cs) auto
      show ?thesis
      proof (cases "e = CHR ''u''")
        case False
        with quote True cs "2.prems" "2.IH"(2) [OF quote True cs False] show ?thesis
          by (fastforce split: option.splits)
      next
        case u: True
        with quote True cs "2.prems" obtain h1 h2 h3 h4 rest where es: "es = h1 # h2 # h3 # h4 # rest"
          by (auto split: list.splits)
        with quote True cs u "2.prems" "2.IH"(1) [OF quote True cs u es] show ?thesis
          by (fastforce split: option.splits)
      qed
    qed
  qed
qed

lemma scan_exp_length: "scan_exp cs = (x, r) \<Longrightarrow> length r \<le> length cs"
  by (auto simp: scan_exp_def split: list.splits if_splits
      intro: le_trans [OF length_dropWhile_le])

lemma scan_frac_length: "scan_frac cs = (x, r) \<Longrightarrow> length r \<le> length cs"
  by (auto simp: scan_frac_def split: list.splits if_splits
      intro: le_trans [OF length_dropWhile_le])

lemma scan_int_length: "scan_int cs = Some (x, r) \<Longrightarrow> length r < length cs"
  by (auto simp: scan_int_def split: list.splits if_splits
      intro: le_imp_less_Suc [OF length_dropWhile_le])

lemma scan_number_length:
  assumes "scan_number cs = Some (v, r)"
  shows "length r < length cs"
proof -
  let ?neg = "case cs of c # _ \<Rightarrow> c = CHR ''-'' | [] \<Rightarrow> False"
  let ?cs1 = "if ?neg then tl cs else cs"
  from assms obtain ip cs2 where i: "scan_int ?cs1 = Some (ip, cs2)"
    by (auto simp: scan_number_def Let_def split: option.splits)
  obtain frac cs3 where f: "scan_frac cs2 = (frac, cs3)" by (cases "scan_frac cs2")
  obtain ex cs4 where e: "scan_exp cs3 = (ex, cs4)" by (cases "scan_exp cs3")
  from assms i f e have "r = cs4"
    by (auto simp: scan_number_def Let_def split: if_splits)
  moreover have "length cs4 \<le> length cs3" using e by (rule scan_exp_length)
  moreover have "length cs3 \<le> length cs2" using f by (rule scan_frac_length)
  moreover have "length cs2 < length ?cs1" using i by (rule scan_int_length)
  moreover have "length ?cs1 \<le> length cs" by simp
  ultimately show ?thesis by simp
qed

text \<open>
  The tokens of a text, in the order in which the scanner of \<open>json.loads\<close> tries them at
  a position: a string, the brackets, \<open>null\<close>, \<open>true\<close>, \<open>false\<close>, a number, \<open>NaN\<close>,
  \<open>Infinity\<close>, \<open>-Infinity\<close>. White space between tokens is skipped. \<open>None\<close> when some
  position starts no token.
\<close>

function lex :: "string \<Rightarrow> token list option" where
  "lex [] = Some []"
| "lex (c # cs) =
     (if is_ws c then lex cs
      else if c = CHR 0x22 then
        (case scan_string cs of
           None \<Rightarrow> None
         | Some (s, r) \<Rightarrow> map_option ((#) (TStr (join_surrogates s))) (lex r))
      else if c = CHR ''{'' then map_option ((#) LBrace) (lex cs)
      else if c = CHR ''}'' then map_option ((#) RBrace) (lex cs)
      else if c = CHR ''['' then map_option ((#) LBracket) (lex cs)
      else if c = CHR '']'' then map_option ((#) RBracket) (lex cs)
      else if c = CHR '':'' then map_option ((#) Colon) (lex cs)
      else if c = CHR '','' then map_option ((#) Comma) (lex cs)
      else if starts_with ''null'' (c # cs) then map_option ((#) (TVal JNull)) (lex (drop 3 cs))
      else if starts_with ''true'' (c # cs) then map_option ((#) (TVal (JBool True))) (lex (drop 3 cs))
      else if starts_with ''false'' (c # cs) then map_option ((#) (TVal (JBool False))) (lex (drop 4 cs))
      else
        (case scan_number (c # cs) of
           Some (v, r) \<Rightarrow> map_option ((#) (TVal v)) (lex r)
         | None \<Rightarrow>
             if starts_with ''NaN'' (c # cs)
             then map_option ((#) (TVal (JFloat ''NaN''))) (lex (drop 2 cs))
             else if starts_with ''Infinity'' (c # cs)
             then map_option ((#) (TVal (JFloat ''Infinity''))) (lex (drop 7 cs))
             else if starts_with ''-Infinity'' (c # cs)
             then map_option ((#) (TVal (JFloat ''-Infinity''))) (lex (drop 8 cs))
             else None))"
  by pat_completeness auto
termination
  by (relation "measure length")
     (auto dest: scan_string_length scan_number_length)

declare lex.simps(2) [simp del]

subsection \<open>\<open>json.loads\<close>: the grammar\<close>

text \<open>
  The parser reads the tokens from left to right and keeps the containers that are still
  open: an array with its elements so far, an object with its members so far and the key
  whose value is being read. An object becomes a dictionary, so a repeated key keeps its
  first place and takes the last value.
\<close>

datatype frame =
    FArr "json list"
  | FObj "(nat list \<times> json) list" "nat list"

datatype pstate =
    PValue "frame list"
  | PArrStart "frame list"
  | PArrNext "json list" "frame list"
  | PObjStart "frame list"
  | PObjKey "(nat list \<times> json) list" "frame list"
  | PObjColon "(nat list \<times> json) list" "nat list" "frame list"
  | PObjNext "(nat list \<times> json) list" "frame list"
  | PDone json

text \<open>A value is complete: it goes into the innermost open container.\<close>

fun reduce :: "json \<Rightarrow> frame list \<Rightarrow> pstate" where
  "reduce v [] = PDone v"
| "reduce v (FArr els # st) = PArrNext (els @ [v]) st"
| "reduce v (FObj d k # st) = PObjNext (dict_setitem d k v) st"

fun pvalue :: "frame list \<Rightarrow> token \<Rightarrow> pstate option" where
  "pvalue st (TVal v) = Some (reduce v st)"
| "pvalue st (TStr s) = Some (reduce (JStr s) st)"
| "pvalue st LBracket = Some (PArrStart st)"
| "pvalue st LBrace = Some (PObjStart st)"
| "pvalue st _ = None"

fun pstep :: "pstate \<Rightarrow> token \<Rightarrow> pstate option" where
  "pstep (PValue st) t = pvalue st t"
| "pstep (PArrStart st) t = (if t = RBracket then Some (reduce (JArr []) st) else pvalue (FArr [] # st) t)"
| "pstep (PArrNext els st) t =
     (if t = Comma then Some (PValue (FArr els # st))
      else if t = RBracket then Some (reduce (JArr els) st)
      else None)"
| "pstep (PObjStart st) t =
     (case t of RBrace \<Rightarrow> Some (reduce (JObj []) st) | TStr k \<Rightarrow> Some (PObjColon [] k st) | _ \<Rightarrow> None)"
| "pstep (PObjKey d st) t = (case t of TStr k \<Rightarrow> Some (PObjColon d k st) | _ \<Rightarrow> None)"
| "pstep (PObjColon d k st) t = (if t = Colon then Some (PValue (FObj d k # st)) else None)"
| "pstep (PObjNext d st) t =
     (if t = Comma then Some (PObjKey d st)
      else if t = RBrace then Some (reduce (JObj d) st)
      else None)"
| "pstep (PDone v) t = None"

fun prun :: "pstate \<Rightarrow> token list \<Rightarrow> pstate option" where
  "prun p [] = Some p"
| "prun p (t # ts) = (case pstep p t of None \<Rightarrow> None | Some p' \<Rightarrow> prun p' ts)"

definition parse :: "token list \<Rightarrow> error + json" where
  "parse ts = (case prun (PValue []) ts of Some (PDone v) \<Rightarrow> Inr v | _ \<Rightarrow> Inl JSONDecodeError)"

definition json_loads :: "string \<Rightarrow> error + json" where
  "json_loads txt = (case lex txt of None \<Rightarrow> Inl JSONDecodeError | Some ts \<Rightarrow> parse ts)"

subsection \<open>Files\<close>

text \<open>
  A path of the file system names no file (and then can or cannot be created), or a file
  that can or cannot be read and written. What a file holds is seen through the UTF-8
  codec that \<open>load_data\<close> and \<open>save_data\<close> ask for: a text, or bytes that are not UTF-8.
  \<open>open(file, "r")\<close> and \<open>open(file, "w")\<close> raise \<open>OSError\<close> where the file system
  refuses; opening for writing creates the file or empties it. \<open>f.read()\<close> raises
  \<open>UnicodeDecodeError\<close> on bytes that are not UTF-8.
\<close>

datatype content =
    Text string
  | NotUTF8

datatype fsnode =
    NoFile bool
  | File bool bool content

type_synonym filesystem = "string \<Rightarrow> fsnode"

definition open_read :: "filesystem \<Rightarrow> string \<Rightarrow> error + content" where
  "open_read fs file =
     (case fs file of
        NoFile creatable \<Rightarrow> Inl OSError
      | File readable writable c \<Rightarrow> if readable then Inr c else Inl OSError)"

definition file_read :: "content \<Rightarrow> error + string" where
  "file_read c = (case c of Text t \<Rightarrow> Inr t | NotUTF8 \<Rightarrow> Inl UnicodeDecodeError)"

definition open_write :: "filesystem \<Rightarrow> string \<Rightarrow> error + filesystem" where
  "open_write fs file =
     (case fs file of
        NoFile creatable \<Rightarrow>
          if creatable then Inr (fs(file := File True True (Text []))) else Inl OSError
      | File readable writable c \<Rightarrow>
          if writable then Inr (fs(file := File readable writable (Text []))) else Inl OSError)"

definition file_write :: "filesystem \<Rightarrow> string \<Rightarrow> string \<Rightarrow> filesystem" where
  "file_write fs file t =
     (case fs file of
        File readable writable (Text old) \<Rightarrow> fs(file := File readable writable (Text (old @ t)))
      | _ \<Rightarrow> fs)"

subsection \<open>\<open>load_data\<close> and \<open>save_data\<close>\<close>

text \<open>
  \<open>load_data(file)\<close> assigns whatever \<open>json.loads\<close> returns to \<open>stock_data\<close>, so the
  object it leaves holds a JSON value. When \<open>open\<close>, \<open>f.read()\<close> or \<open>json.loads\<close> raises,
  the assignment is not reached: the result is the exception and the object as it was.
\<close>

definition load_data ::
  "'d InventoryManager \<Rightarrow> filesystem \<Rightarrow> string
     \<Rightarrow> (error \<times> 'd InventoryManager) + json InventoryManager" where
  "load_data s fs file =
     (case open_read fs file of
        Inl e \<Rightarrow> Inl (e, s)
      | Inr c \<Rightarrow>
          (case file_read c of
             Inl e \<Rightarrow> Inl (e, s)
           | Inr t \<Rightarrow>
               (case json_loads t of
                  Inl e \<Rightarrow> Inl (e, s)
                | Inr v \<Rightarrow> Inr \<lparr>stock_data = v\<rparr>)))"

text \<open>
  \<open>save_data(file)\<close> leaves the object alone; the result is the exception raised, if
  any, and the file system after the call. It writes whatever dictionary from strings to
  integers the object holds, so its keys are Python strings; an inventory built by the
  operations above is that dictionary through \<open>codes_of_stock\<close>.
\<close>

definition save_data ::
  "pydict InventoryManager \<Rightarrow> filesystem \<Rightarrow> string \<Rightarrow> error option \<times> filesystem" where
  "save_data s fs file =
     (case open_write fs file of
        Inl e \<Rightarrow> (Some e, fs)
      | Inr fs1 \<Rightarrow> (None, file_write fs1 file (json_dumps (stock_data s))))"

text \<open>
  A dictionary from strings to integers as a JSON value, and back: the way back exists
  when the value is an object whose values are integers.
\<close>

definition json_of_dict :: "pydict \<Rightarrow> json" where
  "json_of_dict d = JObj (map (\<lambda>(k, v). (k, JInt v)) d)"

fun entry_of_json :: "pystr \<times> json \<Rightarrow> (pystr \<times> int) option" where
  "entry_of_json (k, JInt v) = Some (k, v)"
| "entry_of_json (k, _) = None"

fun entries_of_json :: "(pystr \<times> json) list \<Rightarrow> pydict option" where
  "entries_of_json [] = Some []"
| "entries_of_json (m # ms) =
     (case entry_of_json m of
        None \<Rightarrow> None
      | Some e \<Rightarrow> map_option ((#) e) (entries_of_json ms))"

fun dict_of_json :: "json \<Rightarrow> pydict option" where
  "dict_of_json (JObj ms) = entries_of_json ms"
| "dict_of_json _ = None"

text \<open>
  A string in which no high surrogate is followed at once by a low surrogate: such a pair
  is what \<open>json.dumps\<close> writes for one code point from \<open>0x10000\<close> on.
\<close>

fun pair_free :: "pystr \<Rightarrow> bool" where
  "pair_free (h # l # us) = (\<not> (is_high h \<and> is_low l) \<and> pair_free (l # us))"
| "pair_free us = True"

text \<open>The code units that the escapes of a code point denote.\<close>

definition units :: "nat \<Rightarrow> nat list" where
  "units n =
     (if n < 0x10000 then [n]
      else [0xD800 + (n - 0x10000) div 0x400, 0xDC00 + (n - 0x10000) mod 0x400])"

text \<open>The tokens of the text that \<open>json.dumps\<close> writes for a dictionary.\<close>

fun member_tokens :: "pydict \<Rightarrow> token list" where
  "member_tokens [] = []"
| "member_tokens [(k, v)] = [TStr k, Colon, TVal (JInt v)]"
| "member_tokens ((k, v) # m # ms) =
     TStr k # Colon # TVal (JInt v) # Comma # member_tokens (m # ms)"


section \<open>Facts about dictionaries\<close>

lemma map_of_setitem: "map_of (dict_setitem d k v) = (map_of d)(k \<mapsto> v)"
  by (induction d) auto

lemma map_of_remove: "map_of (dict_remove d k) = (map_of d)(k := None)"
  by (induction d) auto

lemma keys_setitem:
  "map fst (dict_setitem d k v) = (if k \<in> fst ` set d then map fst d else map fst d @ [k])"
  by (induction d) force+

lemma keys_remove: "map fst (dict_remove d k) = removeAll k (map fst d)"
  by (induction d) auto

lemma distinct_setitem: "distinct (map fst d) \<Longrightarrow> distinct (map fst (dict_setitem d k v))"
  by (simp add: keys_setitem)

lemma distinct_remove: "distinct (map fst d) \<Longrightarrow> distinct (map fst (dict_remove d k))"
  by (simp add: keys_remove distinct_removeAll)

lemma setitem_absent: "map_of d k = None \<Longrightarrow> dict_setitem d k v = d @ [(k, v)]"
  by (induction d) (auto split: if_splits)

section \<open>Facts about the operations\<close>

lemma remove_setitem: "dict_remove (dict_setitem d k v) k = dict_remove d k"
  by (induction d) auto

lemma remove_absent_state:
  "map_of (stock_data s) item = None \<Longrightarrow> remove_item s item q = (None, s)"
  by (simp add: remove_item_def remove_item_try_def dict_getitem_def)

lemma remove_present_state:
  "map_of (stock_data s) item = Some v \<Longrightarrow>
   remove_item s item q =
     (None, s\<lparr>stock_data := (if v - q \<le> 0 then dict_remove (stock_data s) item
                               else dict_setitem (stock_data s) item (v - q))\<rparr>)"
  by (simp add: remove_item_def remove_item_try_def dict_getitem_def dict_delitem_def
      map_of_setitem remove_setitem Let_def)

lemma add_item_truthy_eq:
  "item \<noteq> [] \<Longrightarrow>
   fst (add_item now s item q logs) =
     s\<lparr>stock_data := dict_setitem (stock_data s) item (dict_get (stock_data s) item 0 + q)\<rparr>"
  by (simp add: add_item_def truthy_def Let_def)

lemma add_item_falsy_eq: "add_item now s [] q logs = (s, logs)"
  by (simp add: add_item_def truthy_def)

lemma exec_call_keeps_absent:
  assumes "\<not> adds item c" and "map_of (stock_data s) item = None"
  shows "map_of (stock_data (exec_call s c)) item = None"
proof (cases c)
  case (AddItem now item' q logs)
  with assms have ne: "item' \<noteq> item" by simp
  show ?thesis
  proof (cases "item' = []")
    case True
    with AddItem assms(2) show ?thesis by (simp add: add_item_falsy_eq)
  next
    case False
    with AddItem assms(2) ne show ?thesis
      by (simp add: add_item_truthy_eq map_of_setitem)
  qed
next
  case (RemoveItem item' q)
  show ?thesis
  proof (cases "map_of (stock_data s) item'")
    case None
    with RemoveItem assms(2) show ?thesis by (simp add: remove_absent_state)
  next
    case (Some v)
    with assms(2) have "item' \<noteq> item" by auto
    with Some RemoveItem assms(2) show ?thesis
      by (simp add: remove_present_state map_of_setitem map_of_remove)
  qed
qed

lemma foldl_exec_keeps_absent:
  "\<not> list_ex (adds item) calls \<Longrightarrow> map_of (stock_data s) item = None \<Longrightarrow>
   map_of (stock_data (foldl exec_call s calls)) item = None"
  by (induction calls arbitrary: s) (simp_all add: exec_call_keeps_absent)

lemma exec_call_distinct:
  assumes "distinct (map fst (stock_data s))"
  shows "distinct (map fst (stock_data (exec_call s c)))"
proof (cases c)
  case (AddItem now item q logs)
  with assms show ?thesis
    by (cases "item = []") (simp_all add: add_item_falsy_eq add_item_truthy_eq distinct_setitem)
next
  case (RemoveItem item q)
  with assms show ?thesis
    by (cases "map_of (stock_data s) item")
       (simp_all add: remove_absent_state remove_present_state distinct_setitem distinct_remove)
qed

lemma foldl_exec_distinct:
  "distinct (map fst (stock_data s)) \<Longrightarrow> distinct (map fst (stock_data (foldl exec_call s calls)))"
  by (induction calls arbitrary: s) (simp_all add: exec_call_distinct)

text \<open>Every inventory reached from the empty one has distinct keys.\<close>

lemma run_distinct: "distinct (map fst (stock_data (run calls)))"
  by (simp add: run_def foldl_exec_distinct init_def)

lemma scenario_state: "scenario t1 t2 = \<lparr>stock_data = [(''apple'', 7), (''banana'', - 2)]\<rparr>"
  by (simp add: scenario_def run_def init_def add_item_def truthy_def dict_get_def
      remove_item_def remove_item_try_def dict_getitem_def dict_delitem_def)

lemma low_items_distinct:
  "distinct (map fst d) \<Longrightarrow>
   low_items d t = filter (\<lambda>k. case map_of d k of None \<Rightarrow> False | Some q \<Rightarrow> q < t) (map fst d)"
proof (induction d)
  case Nil
  show ?case by simp
next
  case (Cons p d)
  obtain k q where p: "p = (k, q)" by (cases p)
  from Cons.prems p have notin: "k \<notin> fst ` set d" and dist: "distinct (map fst d)" by auto
  have same: "filter (\<lambda>k'. case map_of (p # d) k' of None \<Rightarrow> False | Some q' \<Rightarrow> q' < t) (map fst d)
            = filter (\<lambda>k'. case map_of d k' of None \<Rightarrow> False | Some q' \<Rightarrow> q' < t) (map fst d)"
    using notin p by (intro filter_cong) auto
  show ?case using Cons.IH [OF dist] same p by simp
qed

section \<open>Facts about the \<open>json\<close> model\<close>

subsection \<open>Printing and reading an integer\<close>

lemma of_char_digit_char: "d < 10 \<Longrightarrow> (of_char (digit_char d) :: nat) = 48 + d"
  by (simp add: digit_char_def)

lemma is_digit_digit_char: "d < 10 \<Longrightarrow> is_digit (digit_char d)"
  by (simp add: is_digit_def of_char_digit_char)

lemma str_nat_small: "n < 10 \<Longrightarrow> str_nat n = [digit_char n]"
  by (simp add: str_nat.simps)

lemma str_nat_large: "\<not> n < 10 \<Longrightarrow> str_nat n = str_nat (n div 10) @ [digit_char (n mod 10)]"
  by (subst str_nat.simps) simp

lemma str_nat_digits: "list_all is_digit (str_nat n)"
proof (induction n rule: str_nat.induct)
  case (1 n)
  show ?case
  proof (cases "n < 10")
    case True
    then show ?thesis by (simp add: str_nat_small is_digit_digit_char)
  next
    case False
    with 1 show ?thesis by (simp add: str_nat_large is_digit_digit_char)
  qed
qed

lemma nat_of_digits_snoc:
  "nat_of_digits (ds @ [c]) = 10 * nat_of_digits ds + (of_char c - 48)"
  by (simp add: nat_of_digits_def)

lemma nat_of_digits_str_nat: "nat_of_digits (str_nat n) = n"
proof (induction n rule: str_nat.induct)
  case (1 n)
  show ?case
  proof (cases "n < 10")
    case True
    then show ?thesis by (simp add: str_nat_small nat_of_digits_def of_char_digit_char)
  next
    case False
    with 1 have "nat_of_digits (str_nat (n div 10)) = n div 10" by simp
    with False show ?thesis
      by (simp add: str_nat_large nat_of_digits_snoc of_char_digit_char)
  qed
qed

lemma str_nat_head:
  "\<exists>h t. str_nat n = h # t \<and> is_digit h \<and> (h = CHR ''0'' \<longrightarrow> n = 0 \<and> t = [])"
proof (induction n rule: str_nat.induct)
  case (1 n)
  show ?case
  proof (cases "n < 10")
    case True
    have "digit_char n = CHR ''0'' \<Longrightarrow> n = 0"
    proof -
      assume "digit_char n = CHR ''0''"
      then have "(of_char (digit_char n) :: nat) = of_char (CHR ''0'')" by simp
      with True show "n = 0" by (simp add: of_char_digit_char)
    qed
    with True show ?thesis by (auto simp: str_nat_small is_digit_digit_char)
  next
    case False
    with 1 obtain h t where ht: "str_nat (n div 10) = h # t" "is_digit h"
      "h = CHR ''0'' \<longrightarrow> n div 10 = 0 \<and> t = []" by blast
    from False have "n div 10 \<noteq> 0" by simp
    with ht False show ?thesis by (auto simp: str_nat_large)
  qed
qed

lemma is_digit_simps:
  "\<not> is_digit (CHR '','')" "\<not> is_digit (CHR ''}'')" "\<not> is_digit (CHR ''-'')"
  "\<not> is_digit (CHR ''n'')" "\<not> is_digit (CHR ''t'')" "\<not> is_digit (CHR ''f'')"
  "\<not> is_digit (CHR '' '')" "\<not> is_digit (CHR ''{'')" "\<not> is_digit (CHR ''['')"
  "\<not> is_digit (CHR '']'')" "\<not> is_digit (CHR '':'')" "\<not> is_digit (CHR 0x22)"
  "\<not> is_digit (CHR 0x09)" "\<not> is_digit (CHR 0x0A)" "\<not> is_digit (CHR 0x0D)"
  by (simp_all add: is_digit_def)

lemma scan_int_str_nat:
  assumes "\<And>c r'. r = c # r' \<Longrightarrow> \<not> is_digit c"
  shows "scan_int (str_nat n @ r) = Some (str_nat n, r)"
proof -
  obtain h t where ht: "str_nat n = h # t" "is_digit h" "h = CHR ''0'' \<longrightarrow> n = 0 \<and> t = []"
    using str_nat_head by blast
  have "list_all is_digit (h # t)" using str_nat_digits [of n] ht by simp
  then have t: "\<And>x. x \<in> set t \<Longrightarrow> is_digit x" by (simp add: list_all_iff)
  have r: "takeWhile is_digit r = []" "dropWhile is_digit r = r"
    using assms by (cases r; simp)+
  have tw: "takeWhile is_digit (t @ r) = t" using t r by (simp add: takeWhile_append2)
  have dw: "dropWhile is_digit (t @ r) = r" using t r by (simp add: dropWhile_append2)
  show ?thesis using ht tw dw r by (auto simp: scan_int_def)
qed

text \<open>A number ends where the text ends, or before a comma or a closing brace.\<close>

lemma scan_number_str_int:
  assumes "r = [] \<or> (\<exists>c r'. r = c # r' \<and> (c = CHR '','' \<or> c = CHR ''}''))"
  shows "scan_number (str_int i @ r) = Some (JInt i, r)"
proof -
  have nd: "\<And>c r'. r = c # r' \<Longrightarrow> \<not> is_digit c"
    using assms by (auto simp: is_digit_simps)
  have fr: "scan_frac r = ([], r)"
    using assms by (auto simp: scan_frac_def split: list.splits)
  have ex: "scan_exp r = ([], r)"
    using assms by (auto simp: scan_exp_def split: list.splits)
  obtain h t where ht: "str_nat (nat i) = h # t" "is_digit h"
    using str_nat_head by blast
  then have "h \<noteq> CHR ''-''" using is_digit_simps(3) by auto
  with ht have neg: "(case str_int i @ r of x # _ \<Rightarrow> x = CHR ''-'' | [] \<Rightarrow> False) = (i < 0)"
    by (simp add: str_int_def)
  have rest: "(if i < 0 then tl (str_int i @ r) else str_int i @ r) = str_nat (nat \<bar>i\<bar>) @ r"
    by (simp add: str_int_def)
  have val: "(if i < 0 then - int (nat \<bar>i\<bar>) else int (nat \<bar>i\<bar>)) = i"
    by simp
  have si: "scan_int (str_nat (nat \<bar>i\<bar>) @ r) = Some (str_nat (nat \<bar>i\<bar>), r)"
    using nd by (rule scan_int_str_nat)
  have "scan_number (str_int i @ r)
      = (case scan_int (str_nat (nat \<bar>i\<bar>) @ r) of
           None \<Rightarrow> None
         | Some (ip, cs2) \<Rightarrow>
             let (frac, cs3) = scan_frac cs2;
                 (ex, cs4) = scan_exp cs3
             in if frac = [] \<and> ex = []
                then Some (JInt (if i < 0 then - int (nat_of_digits ip) else int (nat_of_digits ip)), cs4)
                else Some (JFloat ((if i < 0 then ''-'' else []) @ ip @ frac @ ex), cs4))"
    unfolding scan_number_def Let_def neg rest ..
  also have "\<dots> = Some (JInt i, r)"
    unfolding si using val by (simp add: fr ex nat_of_digits_str_nat)
  finally show ?thesis .
qed

lemma str_int_head: "\<exists>h t. str_int i = h # t \<and> (h = CHR ''-'' \<or> is_digit h)"
  using str_nat_head [of "nat i"] str_nat_head [of "nat (- i)"]
  by (auto simp: str_int_def)

subsection \<open>Writing and reading a string\<close>

lemma quote_code: "(c = CHR 0x22) = ((of_char c :: nat) = 34)"
proof -
  have "((of_char c :: nat) = 34) = ((of_char c :: nat) = of_char (CHR 0x22))" by simp
  then show ?thesis by (simp only: of_char_eq_iff)
qed

lemma backslash_code: "(c = CHR 0x5C) = ((of_char c :: nat) = 92)"
proof -
  have "((of_char c :: nat) = 92) = ((of_char c :: nat) = of_char (CHR 0x5C))" by simp
  then show ?thesis by (simp only: of_char_eq_iff)
qed

lemma hex_val_hex_digit: "d < 16 \<Longrightarrow> hex_val (hex_digit d) = Some d"
  by (auto simp: hex_val_def hex_digit_def Let_def)

lemma hex4_word:
  assumes "n < 0x10000"
  shows "hex4 (hex_digit (n div 4096 mod 16)) (hex_digit (n div 256 mod 16))
              (hex_digit (n div 16 mod 16)) (hex_digit (n mod 16)) = Some n"
proof -
  have d1: "n div 16 div 16 = n div 256" by (simp add: div_mult2_eq)
  have d2: "n div 256 div 16 = n div 4096" by (simp add: div_mult2_eq)
  have e0: "n div 16 * 16 + n mod 16 = n" by simp
  have e1: "n div 256 * 16 + n div 16 mod 16 = n div 16"
    using div_mult_mod_eq [of "n div 16" 16] by (simp only: d1)
  have e2: "n div 4096 * 16 + n div 256 mod 16 = n div 256"
    using div_mult_mod_eq [of "n div 256" 16] by (simp only: d2)
  have "n div 4096 < 16" using assms by simp
  then have a: "n div 4096 mod 16 = n div 4096" by simp
  have sum: "((n div 4096 mod 16 * 16 + n div 256 mod 16) * 16 + n div 16 mod 16) * 16 + n mod 16 = n"
    by (simp only: a e2 e1 e0)
  have v: "hex_val (hex_digit (n div 4096 mod 16)) = Some (n div 4096 mod 16)"
    "hex_val (hex_digit (n div 256 mod 16)) = Some (n div 256 mod 16)"
    "hex_val (hex_digit (n div 16 mod 16)) = Some (n div 16 mod 16)"
    "hex_val (hex_digit (n mod 16)) = Some (n mod 16)"
    by (simp_all add: hex_val_hex_digit)
  show ?thesis
    unfolding hex4_def v by (simp only: prod.case option.case sum)
qed

lemma scan_string_plain:
  assumes "(of_char c :: nat) \<noteq> 34" "(of_char c :: nat) \<noteq> 92" "32 \<le> (of_char c :: nat)"
  shows "scan_string (c # rest) = map_option (\<lambda>(s, r). (of_char c # s, r)) (scan_string rest)"
  using assms by (simp add: quote_code backslash_code)

lemma scan_string_simple_escape:
  assumes "unescape e = Some n" "e \<noteq> CHR ''u''"
  shows "scan_string (CHR 0x5C # e # rest) = map_option (\<lambda>(s, r). (n # s, r)) (scan_string rest)"
  using assms by simp

lemma scan_string_u_escape:
  assumes "n < 0x10000"
  shows "scan_string (u_escape n @ rest) = map_option (\<lambda>(s, r). (n # s, r)) (scan_string rest)"
  using hex4_word [OF assms] by (simp add: u_escape_def)

lemma units_astral:
  assumes "0x10000 \<le> n" "n < 0x110000"
  shows "is_high (0xD800 + (n - 0x10000) div 0x400)"
    and "is_low (0xDC00 + (n - 0x10000) mod 0x400)"
    and "0x10000 + (0xD800 + (n - 0x10000) div 0x400 - 0xD800) * 0x400
           + (0xDC00 + (n - 0x10000) mod 0x400 - 0xDC00) = n"
  using assms by (simp_all add: is_high_def is_low_def)

lemma map_option_pair_append:
  "map_option (\<lambda>(s, r). (a # s, r)) (map_option (\<lambda>(s, r). (b # s, r)) x)
     = map_option (\<lambda>(s, r). ([a, b] @ s, r)) x"
  by (cases x) auto

lemma scan_string_escape_char:
  assumes "n < 0x110000"
  shows "scan_string (escape_char n @ rest) = map_option (\<lambda>(s, r). (units n @ s, r)) (scan_string rest)"
proof -
  consider "n = 34" | "n = 92" | "n = 10" | "n = 13" | "n = 9" | "n = 8" | "n = 12"
    | "n \<notin> {34, 92, 10, 13, 9, 8, 12}" "32 \<le> n" "n \<le> 126"
    | "n \<notin> {34, 92, 10, 13, 9, 8, 12}" "\<not> (32 \<le> n \<and> n \<le> 126)" "n < 0x10000"
    | "0x10000 \<le> n"
    by fastforce
  then show ?thesis
  proof cases
    case 1
    then show ?thesis
      using scan_string_simple_escape [of "CHR 0x22" 34 rest]
      by (simp add: escape_char_def unescape_def units_def)
  next
    case 2
    then show ?thesis
      using scan_string_simple_escape [of "CHR 0x5C" 92 rest]
      by (simp add: escape_char_def unescape_def units_def)
  next
    case 3
    then show ?thesis
      using scan_string_simple_escape [of "CHR ''n''" 10 rest]
      by (simp add: escape_char_def unescape_def units_def)
  next
    case 4
    then show ?thesis
      using scan_string_simple_escape [of "CHR ''r''" 13 rest]
      by (simp add: escape_char_def unescape_def units_def)
  next
    case 5
    then show ?thesis
      using scan_string_simple_escape [of "CHR ''t''" 9 rest]
      by (simp add: escape_char_def unescape_def units_def)
  next
    case 6
    then show ?thesis
      using scan_string_simple_escape [of "CHR ''b''" 8 rest]
      by (simp add: escape_char_def unescape_def units_def)
  next
    case 7
    then show ?thesis
      using scan_string_simple_escape [of "CHR ''f''" 12 rest]
      by (simp add: escape_char_def unescape_def units_def)
  next
    case 8
    then have e: "escape_char n = [char_of n]" by (simp add: escape_char_def)
    from 8 have c: "(of_char (char_of n) :: nat) = n" by simp
    from 8 have u: "units n = [n]" by (simp add: units_def)
    show ?thesis
      using scan_string_plain [of "char_of n" rest] 8 by (simp add: e c u)
  next
    case 9
    then have e: "escape_char n = u_escape n" by (auto simp: escape_char_def)
    from 9 have u: "units n = [n]" by (simp add: units_def)
    show ?thesis
      using scan_string_u_escape [OF 9(3), of rest] by (simp add: e u)
  next
    case 10
    let ?hi = "0xD800 + (n - 0x10000) div 0x400"
    let ?lo = "0xDC00 + (n - 0x10000) mod 0x400"
    from 10 have e: "escape_char n = u_escape ?hi @ u_escape ?lo" by (simp add: escape_char_def)
    from 10 have u: "units n = [?hi, ?lo]" by (simp add: units_def)
    have hi: "?hi < 0x10000" using assms 10 by simp
    have lo: "?lo < 0x10000" by simp
    have "scan_string (u_escape ?hi @ u_escape ?lo @ rest)
        = map_option (\<lambda>(s, r). (?hi # s, r)) (map_option (\<lambda>(s, r). (?lo # s, r)) (scan_string rest))"
      by (simp only: scan_string_u_escape [OF hi] scan_string_u_escape [OF lo])
    then show ?thesis
      unfolding e u by (simp only: append_assoc map_option_pair_append)
  qed
qed

lemma scan_string_escaped:
  "is_str k \<Longrightarrow>
   scan_string (concat (map escape_char k) @ CHR 0x22 # rest) = Some (concat (map units k), rest)"
  by (induction k) (simp_all add: is_str_def scan_string_escape_char)

lemma units_head:
  "l < 0x110000 \<Longrightarrow> \<exists>f fs. units l = f # fs \<and> (is_low f \<longrightarrow> f = l)"
  by (auto simp: units_def is_low_def)

lemma join_units_single:
  assumes "n < 0x110000"
  shows "join_surrogates (units n) = [n]"
proof (cases "n < 0x10000")
  case True
  then show ?thesis by (simp add: units_def)
next
  case False
  then have "0x10000 \<le> n" by simp
  from units_astral [OF this assms] False show ?thesis by (simp add: units_def)
qed

lemma join_units_cons:
  assumes "h < 0x110000" and "\<not> (is_high h \<and> is_low l)" and "l < 0x110000"
  shows "join_surrogates (units h @ units l @ us) = h # join_surrogates (units l @ us)"
proof (cases "h < 0x10000")
  case True
  obtain f fs where f: "units l = f # fs" "is_low f \<longrightarrow> f = l"
    using units_head [OF assms(3)] by blast
  with assms(2) have "\<not> (is_high h \<and> is_low f)" by auto
  with True f(1) show ?thesis by (simp add: units_def)
next
  case False
  then have "0x10000 \<le> h" by simp
  from units_astral [OF this assms(1)] False show ?thesis by (simp add: units_def)
qed

lemma join_surrogates_units:
  "is_str k \<Longrightarrow> pair_free k \<Longrightarrow> join_surrogates (concat (map units k)) = k"
proof (induction k rule: pair_free.induct)
  case (1 h l us)
  then have "join_surrogates (concat (map units (l # us))) = l # us"
    by (simp add: is_str_def)
  moreover have "join_surrogates (units h @ units l @ concat (map units us))
      = h # join_surrogates (units l @ concat (map units us))"
    using "1.prems" by (intro join_units_cons) (simp_all add: is_str_def)
  ultimately show ?case by simp
qed (simp_all add: is_str_def join_units_single)

lemma is_str_codes: "is_str (codes k)"
proof -
  have "\<And>c :: char. (of_char c :: nat) < 0x110000"
  proof -
    fix c :: char
    have "(of_char c :: nat) < 256" by simp
    then show "(of_char c :: nat) < 0x110000" by linarith
  qed
  then show ?thesis by (simp add: is_str_def codes_def list_all_iff)
qed

lemma pair_free_small: "\<forall>n \<in> set k. n < 0xD800 \<Longrightarrow> pair_free k"
  by (induction k rule: pair_free.induct) (auto simp: is_high_def)

lemma pair_free_codes: "pair_free (codes k)"
proof (rule pair_free_small)
  have "\<And>c :: char. (of_char c :: nat) < 0xD800"
  proof -
    fix c :: char
    have "(of_char c :: nat) < 256" by simp
    then show "(of_char c :: nat) < 0xD800" by linarith
  qed
  then show "\<forall>n \<in> set (codes k). n < 0xD800" by (auto simp: codes_def)
qed

subsection \<open>Reading what \<open>json.dumps\<close> wrote\<close>

lemma lex_ws: "is_ws c \<Longrightarrow> lex (c # cs) = lex cs"
  by (simp add: lex.simps(2))

lemma lex_blank: "list_all is_ws t \<Longrightarrow> lex t = Some []"
  by (induction t) (simp_all add: lex_ws)

lemma lex_punct:
  "lex (CHR ''{'' # cs) = map_option ((#) LBrace) (lex cs)"
  "lex (CHR ''}'' # cs) = map_option ((#) RBrace) (lex cs)"
  "lex (CHR '':'' # cs) = map_option ((#) Colon) (lex cs)"
  "lex (CHR '','' # cs) = map_option ((#) Comma) (lex cs)"
  by (simp_all add: lex.simps(2) is_ws_def)

lemma lex_space: "lex (CHR '' '' # cs) = lex cs"
  by (simp add: lex_ws is_ws_def)

lemma lex_encode_str:
  assumes "is_str k" "pair_free k"
  shows "lex (encode_str k @ rest) = map_option ((#) (TStr k)) (lex rest)"
proof -
  have e: "encode_str k @ rest = CHR 0x22 # (concat (map escape_char k) @ CHR 0x22 # rest)"
    by (simp add: encode_str_def)
  show ?thesis
    unfolding e
    by (simp add: lex.simps(2) is_ws_def scan_string_escaped [OF assms(1)]
        join_surrogates_units [OF assms])
qed

lemma number_head:
  assumes "h = CHR ''-'' \<or> is_digit h"
  shows "\<not> is_ws h" "h \<noteq> CHR 0x22" "h \<noteq> CHR ''{''" "h \<noteq> CHR ''}''" "h \<noteq> CHR ''[''"
    "h \<noteq> CHR '']''" "h \<noteq> CHR '':''" "h \<noteq> CHR '',''" "h \<noteq> CHR ''n''" "h \<noteq> CHR ''t''"
    "h \<noteq> CHR ''f''"
  using assms by (auto simp: is_digit_def is_ws_def)

lemma lex_str_int:
  assumes "r = [] \<or> (\<exists>c r'. r = c # r' \<and> (c = CHR '','' \<or> c = CHR ''}''))"
  shows "lex (str_int i @ r) = map_option ((#) (TVal (JInt i))) (lex r)"
proof -
  obtain h t where ht: "str_int i = h # t" "h = CHR ''-'' \<or> is_digit h"
    using str_int_head by blast
  have sn: "scan_number (h # t @ r) = Some (JInt i, r)"
    using scan_number_str_int [OF assms, of i] ht(1) by simp
  show ?thesis
    unfolding ht(1) append_Cons
    by (subst lex.simps(2)) (simp add: number_head [OF ht(2)] starts_with_def sn)
qed

lemma lex_member:
  assumes "c = CHR '','' \<or> c = CHR ''}''" and "is_str k" "pair_free k"
  shows "lex (encode_str k @ '': '' @ str_int v @ c # r) =
           map_option (\<lambda>ts. TStr k # Colon # TVal (JInt v) # ts) (lex (c # r))"
proof -
  have "lex (str_int v @ c # r) = map_option ((#) (TVal (JInt v))) (lex (c # r))"
    using assms(1) by (intro lex_str_int) simp
  then show ?thesis
    by (simp add: lex_encode_str [OF assms(2,3)] lex_punct lex_space option.map_comp comp_def)
qed

lemma lex_members:
  "list_all (\<lambda>k. is_str k \<and> pair_free k) (map fst (m # ms)) \<Longrightarrow>
   lex (join '', '' (map (\<lambda>(k, v). encode_str k @ '': '' @ str_int v) (m # ms)) @ ''}'')
     = Some (member_tokens (m # ms) @ [RBrace])"
proof (induction ms arbitrary: m)
  case Nil
  obtain k v where m: "m = (k, v)" by (cases m)
  with Nil have k: "is_str k" "pair_free k" by simp_all
  show ?case
    using lex_member [of "CHR ''}''" k v "[]"] k by (simp add: m lex_punct)
next
  case (Cons m' ms)
  obtain k v where m: "m = (k, v)" by (cases m)
  with Cons.prems have k: "is_str k" "pair_free k" by simp_all
  from Cons.prems have rest: "list_all (\<lambda>k. is_str k \<and> pair_free k) (map fst (m' # ms))"
    by simp
  let ?rest = "join '', '' (map (\<lambda>(k, v). encode_str k @ '': '' @ str_int v) (m' # ms)) @ ''}''"
  have "lex (encode_str k @ '': '' @ str_int v @ CHR '','' # CHR '' '' # ?rest)
      = map_option (\<lambda>ts. TStr k # Colon # TVal (JInt v) # ts)
          (lex (CHR '','' # CHR '' '' # ?rest))"
    using k by (intro lex_member) simp_all
  then show ?case
    using Cons.IH [OF rest] by (simp add: m lex_punct lex_space)
qed

lemma lex_json_dumps:
  assumes "list_all (\<lambda>k. is_str k \<and> pair_free k) (map fst d)"
  shows "lex (json_dumps d) = Some (LBrace # member_tokens d @ [RBrace])"
proof (cases d)
  case Nil
  then show ?thesis by (simp add: json_dumps_def lex_punct)
next
  case (Cons m ms)
  then show ?thesis
    using lex_members [of m ms] assms by (simp add: json_dumps_def lex_punct)
qed

lemma prun_members:
  "ms \<noteq> [] \<Longrightarrow>
   prun (PObjKey acc []) (member_tokens ms @ [RBrace]) =
     Some (PDone (JObj (foldl (\<lambda>d (k, v). dict_setitem d k (JInt v)) acc ms)))"
proof (induction ms arbitrary: acc rule: member_tokens.induct)
  case 1
  then show ?case by simp
next
  case (2 k v)
  show ?case by simp
next
  case (3 k v m ms)
  have "prun (PObjKey (dict_setitem acc k (JInt v)) []) (member_tokens (m # ms) @ [RBrace])
      = Some (PDone (JObj (foldl (\<lambda>d (k, v). dict_setitem d k (JInt v))
                              (dict_setitem acc k (JInt v)) (m # ms))))"
    by (rule "3.IH") simp
  then show ?case by simp
qed

lemma prun_object_start:
  "ms \<noteq> [] \<Longrightarrow>
   prun (PObjStart []) (member_tokens ms @ [RBrace]) = prun (PObjKey [] []) (member_tokens ms @ [RBrace])"
  by (induction ms rule: member_tokens.induct) simp_all

lemma setitems_distinct:
  "distinct (map fst (acc @ ms)) \<Longrightarrow>
   foldl (\<lambda>d (k, v). dict_setitem d k (JInt v)) (map (\<lambda>(k, v). (k, JInt v)) acc) ms
     = map (\<lambda>(k, v). (k, JInt v)) (acc @ ms)"
proof (induction ms arbitrary: acc)
  case Nil
  show ?case by simp
next
  case (Cons m ms)
  obtain k v where m: "m = (k, v)" by (cases m)
  from Cons.prems m have notin: "k \<notin> fst ` set acc" by auto
  have "map_of (map (\<lambda>(k, v). (k, JInt v)) acc) k = None"
    using notin by (auto simp: map_of_eq_None_iff image_iff)
  then have step: "dict_setitem (map (\<lambda>(k, v). (k, JInt v)) acc) k (JInt v)
      = map (\<lambda>(k, v). (k, JInt v)) (acc @ [(k, v)])"
    by (simp add: setitem_absent)
  have "distinct (map fst ((acc @ [(k, v)]) @ ms))" using Cons.prems m by simp
  from Cons.IH [OF this] show ?case by (simp add: m step)
qed

lemma parse_member_tokens:
  assumes "distinct (map fst d)"
  shows "parse (LBrace # member_tokens d @ [RBrace]) = Inr (json_of_dict d)"
proof (cases "d = []")
  case True
  then show ?thesis by (simp add: parse_def json_of_dict_def)
next
  case False
  have "foldl (\<lambda>d (k, v). dict_setitem d k (JInt v)) [] d = map (\<lambda>(k, v). (k, JInt v)) d"
    using setitems_distinct [of "[]" d] assms by simp
  with False show ?thesis
    by (simp add: parse_def json_of_dict_def prun_object_start prun_members)
qed

text \<open>
  What \<open>json.loads\<close> makes of what \<open>json.dumps\<close> wrote, for a dictionary whose keys are
  strings without a high surrogate followed by a low one.
\<close>

lemma json_loads_dumps:
  "distinct (map fst d) \<Longrightarrow> list_all (\<lambda>k. is_str k \<and> pair_free k) (map fst d) \<Longrightarrow>
   json_loads (json_dumps d) = Inr (json_of_dict d)"
  by (simp add: json_loads_def lex_json_dumps parse_member_tokens)

lemma entries_of_json_dict: "entries_of_json (map (\<lambda>(k, v). (k, JInt v)) d) = Some d"
  by (induction d) auto

lemma dict_of_json_of_dict: "dict_of_json (json_of_dict d) = Some d"
  by (simp add: json_of_dict_def entries_of_json_dict)

text \<open>An inventory built by \<open>add_item\<close> and \<open>remove_item\<close> is such a dictionary.\<close>

lemma codes_eq_iff: "(codes k = codes k') = (k = k')"
  by (simp add: codes_def inj_map_eq_map inj_on_def)

lemma keys_codes_of_stock: "map fst (codes_of_stock d) = map codes (map fst d)"
  by (induction d) (auto simp: codes_of_stock_def)

lemma distinct_codes_of_stock: "distinct (map fst (codes_of_stock d)) = distinct (map fst d)"
  by (simp add: keys_codes_of_stock distinct_map inj_on_def codes_eq_iff)

lemma plain_codes_of_stock:
  "list_all (\<lambda>k. is_str k \<and> pair_free k) (map fst (codes_of_stock d))"
  by (simp add: keys_codes_of_stock list_all_iff is_str_codes pair_free_codes)

lemma json_loads_dumps_inventory:
  "json_loads (json_dumps (codes_of_stock (stock_data (run calls))))
     = Inr (json_of_dict (codes_of_stock (stock_data (run calls))))"
  by (simp add: json_loads_dumps distinct_codes_of_stock run_distinct plain_codes_of_stock)

subsection \<open>Texts that \<open>json.loads\<close> accepts or rejects\<close>

lemma json_loads_error: "json_loads t = Inl e \<Longrightarrow> e = JSONDecodeError"
  by (auto simp: json_loads_def parse_def split: option.splits pstate.splits)

lemma json_loads_blank: "list_all is_ws t \<Longrightarrow> json_loads t = Inl JSONDecodeError"
  by (simp add: json_loads_def lex_blank parse_def)

lemma json_loads_int: "json_loads (str_int i) = Inr (JInt i)"
  using lex_str_int [of "[]" i] by (simp add: json_loads_def parse_def)

lemma json_loads_empty_array: "json_loads ''[]'' = Inr (JArr [])"
  by (simp add: json_loads_def lex.simps(2) is_ws_def parse_def)

lemma json_loads_nan: "json_loads ''NaN'' = Inr (JFloat ''NaN'')"
  by (simp add: json_loads_def lex.simps(2) is_ws_def starts_with_def scan_number_def
      scan_int_def is_digit_def parse_def)

subsection \<open>Reading and writing a file\<close>

lemma open_read_error: "open_read fs file = Inl e \<Longrightarrow> e = OSError"
  by (auto simp: open_read_def split: fsnode.splits if_splits)

lemma file_read_error: "file_read c = Inl e \<Longrightarrow> e = UnicodeDecodeError \<and> c = NotUTF8"
  by (auto simp: file_read_def split: content.splits)

lemma save_data_written:
  assumes "save_data s fs file = (None, fs')" and "open_read fs' file = Inr c"
  shows "c = Text (json_dumps (stock_data s))"
  using assms
  by (auto simp: save_data_def open_write_def file_write_def open_read_def
      split: fsnode.splits if_splits)

lemma load_data_text:
  "open_read fs file = Inr (Text t) \<Longrightarrow>
   load_data s fs file = (case json_loads t of Inl e \<Rightarrow> Inl (e, s) | Inr v \<Rightarrow> Inr \<lparr>stock_data = v\<rparr>)"
  by (simp add: load_data_def file_read_def)

text \<open>
  Every inventory built by \<open>add_item\<close> and \<open>remove_item\<close> from the empty one is saved and
  loaded back as it is.
\<close>

lemma save_load_inventory:
  assumes "save_data \<lparr>stock_data = codes_of_stock (stock_data (run calls))\<rparr> fs file = (None, fs')"
    and "open_read fs' file = Inr c"
  shows "load_data s0 fs' file
           = Inr \<lparr>stock_data = json_of_dict (codes_of_stock (stock_data (run calls)))\<rparr>"
proof -
  have "c = Text (json_dumps (codes_of_stock (stock_data (run calls))))"
    using save_data_written [OF assms] by simp
  with assms(2) show ?thesis
    by (simp add: load_data_text json_loads_dumps_inventory)
qed


section \<open>The claims\<close>

text \<open>
  Claim C1, as amended. From an empty inventory, after \<open>add("apple", 10)\<close>,
  \<open>add("banana", -2)\<close>, \<open>remove("apple", 3)\<close> and \<open>remove("orange", 1)\<close> the quantity
  of \<open>"apple"\<close> is 7, \<open>"banana"\<close> is still in the mapping with quantity \<open>-2\<close> (adding never
  deletes an entry), and the low-stock list for threshold 5 is \<open>["banana"]\<close>, every item of
  which has a quantity below 5.
\<close>

theorem scenario_result:
  "get_qty (scenario t1 t2) ''apple'' = Inr 7
   \<and> get_qty (scenario t1 t2) ''banana'' = Inr (- 2)
   \<and> check_low_items (scenario t1 t2) 5 = [''banana'']
   \<and> list_all (\<lambda>k. case map_of (stock_data (scenario t1 t2)) k of
                      None \<Rightarrow> False | Some q \<Rightarrow> q < 5)
        (check_low_items (scenario t1 t2) 5)"
  by (simp add: scenario_state get_qty_def dict_getitem_def check_low_items_def)

text \<open>
  Claim C1 as the specification states it fails in this scenario: \<open>"banana"\<close> is not absent
  and asking for its quantity does not fail.
\<close>

theorem scenario_banana_counterexample:
  "\<not> (get_qty (scenario ''2024-01-01 10:00:00.000000'' ''2024-01-01 10:00:00.000001'') ''apple'' = Inr 7
      \<and> map_of (stock_data (scenario ''2024-01-01 10:00:00.000000'' ''2024-01-01 10:00:00.000001''))
            ''banana'' = None
      \<and> get_qty (scenario ''2024-01-01 10:00:00.000000'' ''2024-01-01 10:00:00.000001'') ''banana''
            = Inl (KeyError ''banana'')
      \<and> list_all (\<lambda>k. case map_of (stock_data
                (scenario ''2024-01-01 10:00:00.000000'' ''2024-01-01 10:00:00.000001'')) k of
                         None \<Rightarrow> False | Some q \<Rightarrow> q < 5)
            (check_low_items (scenario ''2024-01-01 10:00:00.000000'' ''2024-01-01 10:00:00.000001'') 5))"
  by (simp add: scenario_state get_qty_def dict_getitem_def)

text \<open>
  Claim C2. When \<open>item\<close> is in the mapping with quantity \<open>v\<close>, \<open>remove_item(item, q)\<close>
  raises nothing, leaves every other entry as it was, and stores \<open>v - q\<close> for \<open>item\<close> when
  \<open>v - q > 0\<close>; when \<open>v - q \<le> 0\<close> (zero or negative alike) the entry is deleted, so that
  the entry is present afterwards exactly when \<open>v - q > 0\<close>, and \<open>get_qty(item)\<close> then
  returns \<open>v - q\<close> or fails with \<open>KeyError\<close> accordingly.
\<close>

theorem remove_item_present:
  assumes "map_of (stock_data s) item = Some v"
  shows "fst (remove_item s item q) = None
    \<and> map_of (stock_data (snd (remove_item s item q))) =
        (if v - q \<le> 0 then (map_of (stock_data s))(item := None)
         else (map_of (stock_data s))(item \<mapsto> v - q))
    \<and> (item \<in> fst ` set (stock_data (snd (remove_item s item q))) \<longleftrightarrow> 0 < v - q)
    \<and> get_qty (snd (remove_item s item q)) item =
        (if v - q \<le> 0 then Inl (KeyError item) else Inr (v - q))"
proof -
  let ?s' = "snd (remove_item s item q)"
  have m: "map_of (stock_data ?s') =
        (if v - q \<le> 0 then (map_of (stock_data s))(item := None)
         else (map_of (stock_data s))(item \<mapsto> v - q))"
    using assms by (simp add: remove_present_state map_of_setitem map_of_remove)
  have "item \<in> fst ` set (stock_data ?s') \<longleftrightarrow> map_of (stock_data ?s') item \<noteq> None"
    by (simp add: map_of_eq_None_iff)
  with m have "item \<in> fst ` set (stock_data ?s') \<longleftrightarrow> 0 < v - q"
    by (simp split: if_splits)
  moreover have "get_qty ?s' item = (if v - q \<le> 0 then Inl (KeyError item) else Inr (v - q))"
    using m by (simp add: get_qty_def dict_getitem_def)
  moreover have "fst (remove_item s item q) = None"
    using assms by (simp add: remove_present_state)
  ultimately show ?thesis using m by blast
qed

theorem remove_item_present_witness:
  "map_of (stock_data \<lparr>stock_data = [(''apple'', 10), (''pear'', 2)]\<rparr>) ''apple'' = Some 10
   \<and> remove_item \<lparr>stock_data = [(''apple'', 10), (''pear'', 2)]\<rparr> ''apple'' 3
       = (None, \<lparr>stock_data = [(''apple'', 7), (''pear'', 2)]\<rparr>)
   \<and> get_qty (snd (remove_item \<lparr>stock_data = [(''apple'', 10), (''pear'', 2)]\<rparr> ''apple'' 3)) ''apple''
       = Inr 7
   \<and> remove_item \<lparr>stock_data = [(''apple'', 10), (''pear'', 2)]\<rparr> ''apple'' 12
       = (None, \<lparr>stock_data = [(''pear'', 2)]\<rparr>)
   \<and> get_qty (snd (remove_item \<lparr>stock_data = [(''apple'', 10), (''pear'', 2)]\<rparr> ''apple'' 12)) ''apple''
       = Inl (KeyError ''apple'')"
  using remove_item_present [of "\<lparr>stock_data = [(''apple'', 10), (''pear'', 2)]\<rparr>" "''apple''" 10 3]
    remove_item_present [of "\<lparr>stock_data = [(''apple'', 10), (''pear'', 2)]\<rparr>" "''apple''" 10 12]
  by (simp add: remove_item_def remove_item_try_def dict_getitem_def dict_delitem_def)

text \<open>
  Claim C3. When \<open>item\<close> is not in the mapping, the body of \<open>remove_item(item, q)\<close>
  raises \<open>KeyError\<close> before it changes anything, the handler swallows it, and the call
  returns normally with the whole object unchanged.
\<close>

theorem remove_item_absent:
  assumes "map_of (stock_data s) item = None"
  shows "remove_item_try s item q = (Some (KeyError item), s) \<and> remove_item s item q = (None, s)"
  using assms by (simp add: remove_item_def remove_item_try_def dict_getitem_def)

theorem remove_item_absent_witness:
  "map_of (stock_data \<lparr>stock_data = [(''apple'', 7)]\<rparr>) ''orange'' = None
   \<and> remove_item \<lparr>stock_data = [(''apple'', 7)]\<rparr> ''orange'' 1
       = (None, \<lparr>stock_data = [(''apple'', 7)]\<rparr>)"
  using remove_item_absent [of "\<lparr>stock_data = [(''apple'', 7)]\<rparr>" "''orange''" 1]
  by simp

text \<open>
  Claim C4. \<open>get_qty(item)\<close> returns the stored quantity when \<open>item\<close> is in the mapping
  and raises \<open>KeyError\<close> for that item otherwise, with no default value. It fails in this
  way on a new inventory, and after any run of \<open>add_item\<close> and \<open>remove_item\<close> calls none of
  which adds \<open>item\<close>.
\<close>

theorem get_qty_found_or_keyerror:
  "get_qty s item =
     (case map_of (stock_data s) item of None \<Rightarrow> Inl (KeyError item) | Some v \<Rightarrow> Inr v)
   \<and> get_qty init item = Inl (KeyError item)
   \<and> (\<not> list_ex (adds item) calls \<longrightarrow> get_qty (run calls) item = Inl (KeyError item))"
  by (simp add: get_qty_def dict_getitem_def run_def init_def foldl_exec_keeps_absent)

theorem get_qty_found_or_keyerror_witness:
  "\<not> list_ex (adds ''pear'') [AddItem ''t'' ''apple'' 10 None, RemoveItem ''pear'' 1]
   \<and> get_qty (run [AddItem ''t'' ''apple'' 10 None, RemoveItem ''pear'' 1]) ''pear''
       = Inl (KeyError ''pear'')
   \<and> map_of (stock_data (run [AddItem ''t'' ''apple'' 10 None, RemoveItem ''pear'' 1])) ''pear''
       = None"
  using get_qty_found_or_keyerror
    [where s = "run [AddItem ''t'' ''apple'' 10 None, RemoveItem ''pear'' 1]"
       and item = "''pear''"
       and calls = "[AddItem ''t'' ''apple'' 10 None, RemoveItem ''pear'' 1]"]
  by (simp add: run_def init_def add_item_def truthy_def dict_get_def
      remove_item_def remove_item_try_def dict_getitem_def)

text \<open>
  Claim C5. For a non-empty item name, \<open>add_item(item, q)\<close> sets the stored quantity to the
  previous one (0 when the item was absent, which creates the entry) plus \<open>q\<close> and changes
  no other entry; hence two calls with \<open>q1\<close> and \<open>q2\<close> on an item that was absent leave
  \<open>q1 + q2\<close>.
\<close>

theorem add_item_accumulates:
  assumes "item \<noteq> []"
  shows "map_of (stock_data (fst (add_item now s item q logs))) =
           (map_of (stock_data s))(item \<mapsto> dict_get (stock_data s) item 0 + q)
    \<and> get_qty (fst (add_item now s item q logs)) item =
          Inr ((case map_of (stock_data s) item of None \<Rightarrow> 0 | Some v \<Rightarrow> v) + q)
    \<and> (map_of (stock_data s) item = None \<longrightarrow>
          get_qty (fst (add_item t2 (fst (add_item t1 s item q1 logs1)) item q2 logs2)) item
            = Inr (q1 + q2))"
  using assms
  by (simp add: add_item_truthy_eq map_of_setitem get_qty_def dict_getitem_def dict_get_def)

theorem add_item_accumulates_witness:
  "''apple'' \<noteq> []
   \<and> map_of (stock_data init) ''apple'' = None
   \<and> get_qty (fst (add_item ''t2'' (fst (add_item ''t1'' init ''apple'' 10 None)) ''apple'' (- 4) None))
        ''apple'' = Inr (10 + (- 4))
   \<and> fst (add_item ''t2'' (fst (add_item ''t1'' init ''apple'' 10 None)) ''apple'' (- 4) None)
        = \<lparr>stock_data = [(''apple'', 6)]\<rparr>"
  using add_item_accumulates [where item = "''apple''" and s = init and ?t1.0 = "''t1''"
      and ?t2.0 = "''t2''" and ?q1.0 = 10 and ?q2.0 = "- 4" and ?logs1.0 = None and ?logs2.0 = None]
  by (simp add: init_def add_item_def truthy_def dict_get_def)

text \<open>
  Claim C6, as amended. Let the mapping have distinct keys (as every dictionary has), each
  key a string in which no high surrogate is followed at once by a low surrogate, let
  \<open>save_data(file)\<close> succeed and let the file it wrote be opened for reading. Then the
  file holds the text \<open>json.dumps\<close> made of the mapping, and \<open>load_data(file)\<close> on any
  object succeeds and leaves in \<open>stock_data\<close> the same keys with the same integer values
  in the same order; read back as a dictionary from strings to integers it is the mapping
  that was saved. The empty mapping is included, and so is every inventory built by
  \<open>add_item\<close> and \<open>remove_item\<close> (\<open>save_load_inventory\<close>).
\<close>

theorem save_load_roundtrip:
  assumes "distinct (map fst (stock_data s))"
    and "list_all (\<lambda>k. is_str k \<and> pair_free k) (map fst (stock_data s))"
    and "save_data s fs file = (None, fs')"
    and "open_read fs' file = Inr c"
  shows "c = Text (json_dumps (stock_data s))
    \<and> load_data s0 fs' file = Inr \<lparr>stock_data = json_of_dict (stock_data s)\<rparr>
    \<and> dict_of_json (json_of_dict (stock_data s)) = Some (stock_data s)"
proof -
  have w: "c = Text (json_dumps (stock_data s))"
    using assms(3,4) by (rule save_data_written)
  have "json_loads (json_dumps (stock_data s)) = Inr (json_of_dict (stock_data s))"
    using assms(1,2) by (rule json_loads_dumps)
  with assms(4) have "load_data s0 fs' file = Inr \<lparr>stock_data = json_of_dict (stock_data s)\<rparr>"
    by (simp add: load_data_text w)
  with w show ?thesis by (simp add: dict_of_json_of_dict)
qed

theorem save_load_roundtrip_witness:
  \<open>distinct (map fst (stock_data \<lparr>stock_data = [(codes ''apple'', 7), ([0x1F600], - 2), ([0xDE00, 0xD83D], 0)]\<rparr>))
   \<and> list_all (\<lambda>k. is_str k \<and> pair_free k)
         (map fst (stock_data \<lparr>stock_data = [(codes ''apple'', 7), ([0x1F600], - 2), ([0xDE00, 0xD83D], 0)]\<rparr>))
   \<and> save_data \<lparr>stock_data = [(codes ''apple'', 7), ([0x1F600], - 2), ([0xDE00, 0xD83D], 0)]\<rparr>
         (\<lambda>p. NoFile True) ''inventory.json''
       = (None, (\<lambda>p. NoFile True)(''inventory.json'' := File True True (Text
            (''{"apple": 7, "'' @ [CHR 0x5C] @ ''ud83d'' @ [CHR 0x5C] @ ''ude00": -2, "''
               @ [CHR 0x5C] @ ''ude00'' @ [CHR 0x5C] @ ''ud83d": 0}''))))
   \<and> load_data init
         ((\<lambda>p. NoFile True)(''inventory.json'' := File True True (Text
            (''{"apple": 7, "'' @ [CHR 0x5C] @ ''ud83d'' @ [CHR 0x5C] @ ''ude00": -2, "''
               @ [CHR 0x5C] @ ''ude00'' @ [CHR 0x5C] @ ''ud83d": 0}''))))
         ''inventory.json''
       = Inr \<lparr>stock_data = JObj [([97, 112, 112, 108, 101], JInt 7), ([0x1F600], JInt (- 2)),
                               ([0xDE00, 0xD83D], JInt 0)]\<rparr>
   \<and> save_data \<lparr>stock_data = []\<rparr> (\<lambda>p. File True True (Text ''old text'')) ''inventory.json''
       = (None, (\<lambda>p. File True True (Text ''old text''))(''inventory.json'' := File True True (Text ''{}'')))
   \<and> load_data init ((\<lambda>p. File True True (Text ''old text''))(''inventory.json'' := File True True (Text ''{}'')))
         ''inventory.json'' = Inr \<lparr>stock_data = JObj []\<rparr>\<close>
proof -
  have d1: \<open>json_dumps [([97, 112, 112, 108, 101], 7), ([0x1F600], - 2), ([0xDE00, 0xD83D], 0)]
      = ''{"apple": 7, "'' @ [CHR 0x5C] @ ''ud83d'' @ [CHR 0x5C] @ ''ude00": -2, "''
               @ [CHR 0x5C] @ ''ude00'' @ [CHR 0x5C] @ ''ud83d": 0}''\<close>
    by (simp add: json_dumps_def encode_str_def escape_char_def u_escape_def hex_digit_def
        str_int_def str_nat.simps digit_char_def codes_def char_of_eq_iff)
  have d2: "json_dumps [] = ''{}''"
    by (simp add: json_dumps_def)
  have k: "is_str [0x1F600]" "is_str [0xDE00, 0xD83D]" "pair_free [0x1F600]" "pair_free [0xDE00, 0xD83D]"
    "codes ''apple'' = [97, 112, 112, 108, 101]"
    by (simp_all add: is_str_def is_high_def is_low_def codes_def)
  show ?thesis
    using save_load_roundtrip
      [of "\<lparr>stock_data = [(codes ''apple'', 7), ([0x1F600], - 2), ([0xDE00, 0xD83D], 0)]\<rparr>"
          "\<lambda>p. NoFile True" "''inventory.json''"
          "(\<lambda>p. NoFile True)(''inventory.json'' := File True True
             (Text (json_dumps [(codes ''apple'', 7), ([0x1F600], - 2), ([0xDE00, 0xD83D], 0)])))"
          "Text (json_dumps [(codes ''apple'', 7), ([0x1F600], - 2), ([0xDE00, 0xD83D], 0)])" init]
      save_load_roundtrip
      [of "\<lparr>stock_data = []\<rparr>" "\<lambda>p. File True True (Text ''old text'')" "''inventory.json''"
          "(\<lambda>p. File True True (Text ''old text''))(''inventory.json'' := File True True (Text (json_dumps [])))"
          "Text (json_dumps [])" init]
    by (simp add: d1 d2 k is_str_def is_high_def is_low_def save_data_def open_write_def
        file_write_def open_read_def json_of_dict_def)
qed

text \<open>
  Claim C6 as the specification states it fails for the mapping whose one key is the high
  surrogate \<open>0xD83D\<close> followed by the low surrogate \<open>0xDE00\<close>: \<open>json.dumps\<close> writes the
  two escapes, which \<open>json.loads\<close> reads as the one code point \<open>0x1F600\<close>, so the mapping
  that \<open>load_data\<close> leaves has another key than the one saved.
\<close>

theorem save_load_surrogate_counterexample:
  "is_str [0xD83D, 0xDE00]
   \<and> fst (save_data \<lparr>stock_data = [([0xD83D, 0xDE00], 1)]\<rparr> (\<lambda>p. NoFile True) ''inventory.json'') = None
   \<and> load_data \<lparr>stock_data = [([0xD83D, 0xDE00], 1 :: int)]\<rparr>
         (snd (save_data \<lparr>stock_data = [([0xD83D, 0xDE00], 1)]\<rparr> (\<lambda>p. NoFile True) ''inventory.json''))
         ''inventory.json''
       = Inr \<lparr>stock_data = JObj [([0x1F600], JInt 1)]\<rparr>
   \<and> JObj [([0x1F600], JInt 1)] \<noteq> json_of_dict [([0xD83D, 0xDE00], 1)]
   \<and> dict_of_json (JObj [([0x1F600], JInt 1)]) \<noteq> Some [([0xD83D, 0xDE00], 1)]"
proof -
  have d: "json_dumps [([0xD83D, 0xDE00], 1)]
      = [CHR ''{'', CHR 0x22, CHR 0x5C, CHR ''u'', CHR ''d'', CHR ''8'', CHR ''3'', CHR ''d'',
         CHR 0x5C, CHR ''u'', CHR ''d'', CHR ''e'', CHR ''0'', CHR ''0'', CHR 0x22, CHR '':'',
         CHR '' '', CHR ''1'', CHR ''}'']"
    by (simp add: json_dumps_def encode_str_def escape_char_def u_escape_def hex_digit_def
        str_int_def str_nat.simps digit_char_def codes_def char_of_eq_iff)
  have l: "json_loads [CHR ''{'', CHR 0x22, CHR 0x5C, CHR ''u'', CHR ''d'', CHR ''8'', CHR ''3'', CHR ''d'',
         CHR 0x5C, CHR ''u'', CHR ''d'', CHR ''e'', CHR ''0'', CHR ''0'', CHR 0x22, CHR '':'',
         CHR '' '', CHR ''1'', CHR ''}''] = Inr (JObj [([0x1F600], JInt 1)])"
    by (simp add: json_loads_def lex.simps(2) is_ws_def starts_with_def scan_number_def
        scan_int_def scan_frac_def scan_exp_def is_digit_def nat_of_digits_def parse_def
        hex4_def hex_val_def is_high_def is_low_def)
  show ?thesis
    by (simp add: d l is_str_def save_data_def open_write_def file_write_def load_data_def
        open_read_def file_read_def json_of_dict_def)
qed

text \<open>
  Claim C7. \<open>check_low_items(threshold)\<close> returns the keys of the mapping, in iteration
  order, whose stored quantity is strictly below the threshold: as a set these are exactly
  the items with a quantity below the threshold, the list is a subsequence of the key
  sequence, and no item is listed twice. The function only reads \<open>stock_data\<close>; it returns
  the list and no new state.
\<close>

theorem check_low_items_exact:
  assumes "distinct (map fst (stock_data s))"
  shows "check_low_items s threshold =
           filter (\<lambda>item. case map_of (stock_data s) item of
                             None \<Rightarrow> False | Some qty \<Rightarrow> qty < threshold)
                  (map fst (stock_data s))
    \<and> set (check_low_items s threshold) =
          {item. \<exists>qty. map_of (stock_data s) item = Some qty \<and> qty < threshold}
    \<and> subseq (check_low_items s threshold) (map fst (stock_data s))
    \<and> distinct (check_low_items s threshold)"
proof -
  let ?P = "\<lambda>item. case map_of (stock_data s) item of None \<Rightarrow> False | Some qty \<Rightarrow> qty < threshold"
  have eq: "check_low_items s threshold = filter ?P (map fst (stock_data s))"
    using assms by (simp add: check_low_items_def low_items_distinct)
  have "set (filter ?P (map fst (stock_data s))) =
        {item. \<exists>qty. map_of (stock_data s) item = Some qty \<and> qty < threshold}"
    by (auto split: option.splits dest: map_of_SomeD simp: rev_image_eqI)
  moreover have "subseq (filter ?P (map fst (stock_data s))) (map fst (stock_data s))"
    by (rule subseq_filter_left)
  moreover have "distinct (filter ?P (map fst (stock_data s)))"
    using assms by (rule distinct_filter)
  ultimately show ?thesis using eq by simp
qed

theorem check_low_items_exact_witness:
  "distinct (map fst (stock_data \<lparr>stock_data = [(''apple'', 2), (''banana'', 10), (''kiwi'', 5), (''fig'', - 1)]\<rparr>))
   \<and> check_low_items \<lparr>stock_data = [(''apple'', 2), (''banana'', 10), (''kiwi'', 5), (''fig'', - 1)]\<rparr> 5
       = [''apple'', ''fig'']"
  using check_low_items_exact
    [of "\<lparr>stock_data = [(''apple'', 2), (''banana'', 10), (''kiwi'', 5), (''fig'', - 1)]\<rparr>" 5]
  by simp

text \<open>
  Claim C8. For a falsy item name (the empty string), \<open>add_item(item, qty, logs)\<close> returns
  at once: the mapping is unchanged and the supplied log list, if any, gets no new line.
\<close>

theorem add_item_falsy_noop:
  assumes "\<not> truthy item"
  shows "add_item now s item qty logs = (s, logs)"
  using assms by (simp add: add_item_def)

theorem add_item_falsy_noop_witness:
  "\<not> truthy '''' \<and>
   add_item ''2024-01-01 10:00:00'' \<lparr>stock_data = [(''apple'', 7)]\<rparr> '''' 4 (Some [''earlier line''])
     = (\<lparr>stock_data = [(''apple'', 7)]\<rparr>, Some [''earlier line''])"
  using add_item_falsy_noop [of "''''" "''2024-01-01 10:00:00''" "\<lparr>stock_data = [(''apple'', 7)]\<rparr>"
      4 "Some [''earlier line'']"]
  by (simp add: truthy_def)

text \<open>
  Claim C9, as amended. \<open>load_data(file)\<close> fails with \<open>OSError\<close> when the file cannot be
  opened for reading, with \<open>UnicodeDecodeError\<close> when it is not UTF-8 text, and with
  \<open>JSONDecodeError\<close> when \<open>json.loads\<close> rejects its text, as it does for an empty or
  blank text; whenever the call fails the object is left as it was. The text need not be
  a JSON object: when \<open>json.loads\<close> accepts it the call succeeds, and so it does for \<open>[]\<close>,
  for every integer literal of at most 640 characters (a length that the interpreter's
  limit on the digits of an integer, where one is set, always allows) and for \<open>NaN\<close>. On
  success \<open>stock_data\<close> is the parsed value alone: nothing of the previous mapping is kept.
\<close>

theorem load_data_outcomes:
  "(open_read fs file = Inl e1 \<longrightarrow> e1 = OSError \<and> load_data s fs file = Inl (OSError, s))
   \<and> (open_read fs file = Inr NotUTF8 \<longrightarrow> load_data s fs file = Inl (UnicodeDecodeError, s))
   \<and> (open_read fs file = Inr (Text t) \<and> json_loads t = Inl e2 \<longrightarrow>
        e2 = JSONDecodeError \<and> load_data s fs file = Inl (JSONDecodeError, s))
   \<and> (open_read fs file = Inr (Text t) \<and> list_all is_ws t \<longrightarrow>
        load_data s fs file = Inl (JSONDecodeError, s))
   \<and> (load_data s fs file = Inl (e, s') \<longrightarrow> s' = s)
   \<and> (open_read fs file = Inr (Text t) \<and> json_loads t = Inr v \<longrightarrow>
        load_data s fs file = Inr \<lparr>stock_data = v\<rparr>)
   \<and> (open_read fs file = Inr (Text ''[]'') \<longrightarrow> load_data s fs file = Inr \<lparr>stock_data = JArr []\<rparr>)
   \<and> (open_read fs file = Inr (Text (str_int i)) \<and> length (str_int i) \<le> 640 \<longrightarrow>
        load_data s fs file = Inr \<lparr>stock_data = JInt i\<rparr>)
   \<and> (open_read fs file = Inr (Text ''NaN'') \<longrightarrow>
        load_data s fs file = Inr \<lparr>stock_data = JFloat ''NaN''\<rparr>)"
proof -
  have "open_read fs file = Inl e1 \<longrightarrow> e1 = OSError \<and> load_data s fs file = Inl (OSError, s)"
    by (auto simp: load_data_def dest: open_read_error)
  moreover have "open_read fs file = Inr NotUTF8 \<longrightarrow> load_data s fs file = Inl (UnicodeDecodeError, s)"
    by (simp add: load_data_def file_read_def)
  moreover have "open_read fs file = Inr (Text t) \<and> json_loads t = Inl e2 \<longrightarrow>
        e2 = JSONDecodeError \<and> load_data s fs file = Inl (JSONDecodeError, s)"
    by (auto simp: load_data_text dest: json_loads_error)
  moreover have "open_read fs file = Inr (Text t) \<and> list_all is_ws t \<longrightarrow>
        load_data s fs file = Inl (JSONDecodeError, s)"
    by (simp add: load_data_text json_loads_blank)
  moreover have "load_data s fs file = Inl (e, s') \<longrightarrow> s' = s"
    by (auto simp: load_data_def split: sum.splits)
  moreover have "open_read fs file = Inr (Text t) \<and> json_loads t = Inr v \<longrightarrow>
        load_data s fs file = Inr \<lparr>stock_data = v\<rparr>"
    by (simp add: load_data_text)
  moreover have "open_read fs file = Inr (Text ''[]'') \<longrightarrow> load_data s fs file = Inr \<lparr>stock_data = JArr []\<rparr>"
    by (simp add: load_data_text json_loads_empty_array)
  moreover have "open_read fs file = Inr (Text (str_int i)) \<and> length (str_int i) \<le> 640 \<longrightarrow>
        load_data s fs file = Inr \<lparr>stock_data = JInt i\<rparr>"
    by (simp add: load_data_text json_loads_int)
  moreover have "open_read fs file = Inr (Text ''NaN'') \<longrightarrow>
        load_data s fs file = Inr \<lparr>stock_data = JFloat ''NaN''\<rparr>"
    by (simp add: load_data_text json_loads_nan)
  ultimately show ?thesis by blast
qed

theorem load_data_outcomes_witness:
  \<open>open_read (\<lambda>p. NoFile True) ''inventory.json'' = Inl OSError
   \<and> load_data \<lparr>stock_data = [(''apple'', 7 :: int)]\<rparr> (\<lambda>p. NoFile True) ''inventory.json''
       = Inl (OSError, \<lparr>stock_data = [(''apple'', 7)]\<rparr>)
   \<and> open_read (\<lambda>p. File True True NotUTF8) ''inventory.json'' = Inr NotUTF8
   \<and> load_data \<lparr>stock_data = [(''apple'', 7 :: int)]\<rparr> (\<lambda>p. File True True NotUTF8) ''inventory.json''
       = Inl (UnicodeDecodeError, \<lparr>stock_data = [(''apple'', 7)]\<rparr>)
   \<and> json_loads ''{"pear": 3,}'' = Inl JSONDecodeError
   \<and> load_data \<lparr>stock_data = [(''apple'', 7 :: int)]\<rparr> (\<lambda>p. File True True (Text ''{"pear": 3,}''))
         ''inventory.json''
       = Inl (JSONDecodeError, \<lparr>stock_data = [(''apple'', 7)]\<rparr>)
   \<and> list_all is_ws ''  ''
   \<and> load_data \<lparr>stock_data = [(''apple'', 7 :: int)]\<rparr> (\<lambda>p. File True True (Text ''  ''))
         ''inventory.json''
       = Inl (JSONDecodeError, \<lparr>stock_data = [(''apple'', 7)]\<rparr>)
   \<and> json_loads ''{"pear": 3}'' = Inr (JObj [([112, 101, 97, 114], JInt 3)])
   \<and> load_data \<lparr>stock_data = [(''apple'', 7 :: int)]\<rparr> (\<lambda>p. File True True (Text ''{"pear": 3}''))
         ''inventory.json''
       = Inr \<lparr>stock_data = JObj [([112, 101, 97, 114], JInt 3)]\<rparr>
   \<and> load_data \<lparr>stock_data = [(''apple'', 7 :: int)]\<rparr> (\<lambda>p. File True True (Text ''[]''))
         ''inventory.json''
       = Inr \<lparr>stock_data = JArr []\<rparr>
   \<and> str_int (- 12) = ''-12'' \<and> length (str_int (- 12)) \<le> 640
   \<and> load_data \<lparr>stock_data = [(''apple'', 7 :: int)]\<rparr> (\<lambda>p. File True True (Text ''-12''))
         ''inventory.json''
       = Inr \<lparr>stock_data = JInt (- 12)\<rparr>
   \<and> load_data \<lparr>stock_data = [(''apple'', 7 :: int)]\<rparr> (\<lambda>p. File True True (Text ''NaN''))
         ''inventory.json''
       = Inr \<lparr>stock_data = JFloat ''NaN''\<rparr>\<close>
proof -
  let ?s = "\<lparr>stock_data = [(''apple'', 7 :: int)]\<rparr>"
  have bad: \<open>json_loads ''{"pear": 3,}'' = Inl JSONDecodeError\<close>
    by (simp add: json_loads_def lex.simps(2) is_ws_def starts_with_def scan_number_def
        scan_int_def scan_frac_def scan_exp_def is_digit_def nat_of_digits_def parse_def
        is_high_def is_low_def)
  have good: \<open>json_loads ''{"pear": 3}'' = Inr (JObj [([112, 101, 97, 114], JInt 3)])\<close>
    by (simp add: json_loads_def lex.simps(2) is_ws_def starts_with_def scan_number_def
        scan_int_def scan_frac_def scan_exp_def is_digit_def nat_of_digits_def parse_def
        is_high_def is_low_def)
  have num: "str_int (- 12) = ''-12''"
    by code_simp
  have o: "\<And>c. open_read (\<lambda>p. File True True c) ''inventory.json'' = Inr c"
    by (simp add: open_read_def)
  note th = load_data_outcomes [where s = ?s and i = "- 12"]
  show ?thesis
    using th [of "\<lambda>p. NoFile True" "''inventory.json''" OSError]
      th [of "\<lambda>p. File True True NotUTF8" "''inventory.json''"]
      th [of "\<lambda>p. File True True (Text [CHR ''{'', CHR 0x22, CHR ''p'', CHR ''e'', CHR ''a'', CHR ''r'', CHR 0x22, CHR '':'', CHR '' '', CHR ''3'', CHR '','', CHR ''}''])"
             "''inventory.json''" OSError
             "[CHR ''{'', CHR 0x22, CHR ''p'', CHR ''e'', CHR ''a'', CHR ''r'', CHR 0x22, CHR '':'', CHR '' '', CHR ''3'', CHR '','', CHR ''}'']"
             JSONDecodeError]
      th [of "\<lambda>p. File True True (Text ''  '')" "''inventory.json''" OSError "''  ''"]
      th [of "\<lambda>p. File True True (Text [CHR ''{'', CHR 0x22, CHR ''p'', CHR ''e'', CHR ''a'', CHR ''r'', CHR 0x22, CHR '':'', CHR '' '', CHR ''3'', CHR ''}''])"
             "''inventory.json''" OSError
             "[CHR ''{'', CHR 0x22, CHR ''p'', CHR ''e'', CHR ''a'', CHR ''r'', CHR 0x22, CHR '':'', CHR '' '', CHR ''3'', CHR ''}'']"
             JSONDecodeError OSError ?s "JObj [([112, 101, 97, 114], JInt 3)]"]
      th [of "\<lambda>p. File True True (Text ''[]'')" "''inventory.json''"]
      th [of "\<lambda>p. File True True (Text (str_int (- 12)))" "''inventory.json''"]
      th [of "\<lambda>p. File True True (Text ''NaN'')" "''inventory.json''"]
    by (simp add: bad good o is_ws_def open_read_def num)
qed

text \<open>
  Claim C9 as the specification states it fails for a readable file whose text is \<open>[]\<close>:
  the text is valid JSON but not an object, and \<open>load_data\<close> does not fail; it replaces
  the mapping by the empty list.
\<close>

theorem load_data_array_counterexample:
  \<open>dict_of_json (JArr []) = None
   \<and> \<not> isl (load_data \<lparr>stock_data = [(''apple'', 7 :: int)]\<rparr>
               (\<lambda>p. File True True (Text ''[]'')) ''inventory.json'')
   \<and> load_data \<lparr>stock_data = [(''apple'', 7 :: int)]\<rparr> (\<lambda>p. File True True (Text ''[]'')) ''inventory.json''
       = Inr \<lparr>stock_data = JArr []\<rparr>\<close>
  by (simp add: load_data_def open_read_def file_read_def json_loads_empty_array)

text \<open>
  Claim C10. \<open>add_item\<close> never deletes an entry: every key present before the call is
  present after it, and for a non-empty item name the item itself is present after the call
  with the previous quantity (0 if absent) plus \<open>q\<close>, whatever its sign, so that
  \<open>get_qty(item)\<close> succeeds.
\<close>

theorem add_item_never_deletes:
  "set (map fst (stock_data s)) \<subseteq> set (map fst (stock_data (fst (add_item now s item q logs))))
   \<and> (truthy item \<longrightarrow>
        item \<in> set (map fst (stock_data (fst (add_item now s item q logs))))
        \<and> get_qty (fst (add_item now s item q logs)) item = Inr (dict_get (stock_data s) item 0 + q))"
proof (cases "item = []")
  case True
  then show ?thesis by (simp add: add_item_falsy_eq truthy_def)
next
  case False
  then show ?thesis
    by (auto simp: add_item_truthy_eq truthy_def keys_setitem get_qty_def dict_getitem_def
        map_of_setitem)
qed

theorem add_item_never_deletes_witness:
  "truthy ''banana''
   \<and> fst (add_item ''t'' \<lparr>stock_data = [(''apple'', 10)]\<rparr> ''banana'' (- 2) None)
       = \<lparr>stock_data = [(''apple'', 10), (''banana'', - 2)]\<rparr>
   \<and> get_qty (fst (add_item ''t'' \<lparr>stock_data = [(''apple'', 10)]\<rparr> ''banana'' (- 2) None)) ''banana''
       = Inr (- 2)
   \<and> get_qty (fst (add_item ''t'' \<lparr>stock_data = [(''apple'', 10)]\<rparr> ''apple'' (- 10) None)) ''apple''
       = Inr 0"
  using add_item_never_deletes [of "\<lparr>stock_data = [(''apple'', 10)]\<rparr>" "''t''" "''banana''" "- 2" None]
    add_item_never_deletes [of "\<lparr>stock_data = [(''apple'', 10)]\<rparr>" "''t''" "''apple''" "- 10" None]
  by (simp add: truthy_def add_item_def dict_get_def get_qty_def dict_getitem_def)

end
